theory Spec2Isabelle
  imports Main
begin

section \<open>Tensors over a store\<close>

text \<open>
  The notebook cell of \<^verbatim>\<open>predict.ipynb\<close> defines one class, \<^verbatim>\<open>WarpModel\<close>, around a
  network of the ultralytics library. Its \<^verbatim>\<open>forward\<close> uses four operations of torch:
  \<^verbatim>\<open>permute\<close>, basic slicing, \<^verbatim>\<open>torch.ones\<close> and \<^verbatim>\<open>torch.cat\<close>. A torch tensor is
  a view (offset, sizes, strides) of a storage; \<^verbatim>\<open>permute\<close> and slicing make new views of
  the same storage, \<^verbatim>\<open>ones\<close> and \<^verbatim>\<open>cat\<close> allocate a new storage. The store below maps
  storage addresses to their element buffers.
\<close>

datatype dtype = Float16 | BFloat16 | Float32 | Float64 | Int32 | Int64 | BoolT

datatype device = CPU | CUDA nat

text \<open>
  A tensor has the strided layout unless its network made it sparse. For a sparse tensor the
  record keeps the sizes, the element type and the device; its elements are not modelled, and
  forward never reads them.
\<close>

datatype layout = Strided | SparseCoo

record tensor =
  storage :: nat
  offset :: nat
  shape :: "nat list"
  strides :: "nat list"
  dtype :: dtype
  device :: device
  layout :: layout

record 'a heap =
  cells :: "nat \<Rightarrow> 'a list"
  next_addr :: nat

definition alloc :: "'a heap \<Rightarrow> 'a list \<Rightarrow> 'a heap" where
  "alloc h buf = h\<lparr>cells := (cells h)(next_addr h := buf), next_addr := Suc (next_addr h)\<rparr>"

definition allocated :: "'a heap \<Rightarrow> tensor \<Rightarrow> bool" where
  "allocated h t = (storage t < next_addr h)"

text \<open>The element of a tensor of rank three at index \<open>(i, j, k)\<close>, and the row \<open>t[i, j, :]\<close>.\<close>

definition at3 :: "'a heap \<Rightarrow> tensor \<Rightarrow> nat \<Rightarrow> nat \<Rightarrow> nat \<Rightarrow> 'a" where
  "at3 h t i j k =
     cells h (storage t) ! (offset t + i * (strides t ! 0) + j * (strides t ! 1) + k * (strides t ! 2))"

definition row :: "'a heap \<Rightarrow> tensor \<Rightarrow> nat \<Rightarrow> nat \<Rightarrow> 'a list" where
  "row h t i j = map (at3 h t i j) [0..<shape t ! 2]"

text \<open>The elements of a tensor of any rank in logical (row-major) order, as \<^verbatim>\<open>flatten\<close> lists them.\<close>

fun elems :: "'a list \<Rightarrow> nat \<Rightarrow> nat list \<Rightarrow> nat list \<Rightarrow> 'a list" where
  "elems buf off [] ss = [buf ! off]"
| "elems buf off (d # ds) [] = []"
| "elems buf off (d # ds) (s # ss) = concat (map (\<lambda>i. elems buf (off + i * s) ds ss) [0..<d])"

text \<open>What a tensor is worth as a value: sizes, element type, device, layout and elements.\<close>

definition tvalue :: "'a heap \<Rightarrow> tensor \<Rightarrow> nat list \<times> dtype \<times> device \<times> layout \<times> 'a list" where
  "tvalue h t =
     (shape t, dtype t, device t, layout t,
      elems (cells h (storage t)) (offset t) (shape t) (strides t))"

text \<open>
  The strides of a newly allocated tensor: the product of the sizes of the later axes. (For a
  tensor with an axis of size zero torch counts that axis as one; such a tensor has no
  element to read, so no index depends on it.)
\<close>

fun contiguous_strides :: "nat list \<Rightarrow> nat list" where
  "contiguous_strides [] = []"
| "contiguous_strides (d # ds) = prod_list ds # contiguous_strides ds"

section \<open>The operations of torch that forward calls\<close>

text \<open>
  The errors forward can end in: the exception of the wrapped network, or the failed check
  of one of the four operations (\<^verbatim>\<open>RuntimeError\<close> for permute and cat, \<^verbatim>\<open>IndexError\<close> for
  an index with more entries than the tensor has dimensions, \<^verbatim>\<open>NotImplementedError\<close> for
  slicing a sparse tensor).
\<close>

datatype 'e error =
    ModelRaised 'e
  | PermuteDims
  | TooManyIndices
  | SlicingSparse
  | CatEmpty
  | CatLayouts
  | CatRank
  | CatSizes
  | CatDevices
  | CatDtypes

text \<open>\<^verbatim>\<open>t.permute(dims)\<close>: a view with the sizes and strides reordered.\<close>

definition permute :: "tensor \<Rightarrow> nat list \<Rightarrow> 'e error + tensor" where
  "permute t dims =
     (if length dims = length (shape t) \<and> distinct dims \<and> list_all (\<lambda>d. d < length (shape t)) dims
      then Inr (t\<lparr>shape := map (\<lambda>d. shape t ! d) dims, strides := map (\<lambda>d. strides t ! d) dims\<rparr>)
      else Inl PermuteDims)"

text \<open>
  The bounds of a Python slice \<^verbatim>\<open>start:stop\<close> (step one) on an axis of \<open>n\<close> entries:
  a negative bound counts from the end, every bound is clamped to \<open>0..n\<close>, a missing
  bound is the end of the axis on its side.
\<close>

definition clamp_index :: "int \<Rightarrow> nat \<Rightarrow> nat" where
  "clamp_index i n = nat (if i < 0 then max (i + int n) 0 else min i (int n))"

definition slice_indices :: "int option \<Rightarrow> int option \<Rightarrow> nat \<Rightarrow> nat \<times> nat" where
  "slice_indices start stop n =
     ((case start of None \<Rightarrow> 0 | Some i \<Rightarrow> clamp_index i n),
      (case stop of None \<Rightarrow> n | Some i \<Rightarrow> clamp_index i n))"

text \<open>
  \<^verbatim>\<open>t[:, :, start:stop]\<close>: a view of the same storage, narrowed along axis 2. A stop
  before the start gives an empty axis. Indexing a tensor of fewer than three dimensions
  with three entries raises, and so does slicing a tensor of a sparse layout; \<^verbatim>\<open>permute\<close>
  above takes both layouts.
\<close>

definition getitem_dim2 :: "tensor \<Rightarrow> int option \<Rightarrow> int option \<Rightarrow> 'e error + tensor" where
  "getitem_dim2 t start stop =
     (if length (shape t) < 3 then Inl TooManyIndices
      else if layout t \<noteq> Strided then Inl SlicingSparse
      else (case slice_indices start stop (shape t ! 2) of
              (s, e) \<Rightarrow> Inr (t\<lparr>offset := offset t + s * (strides t ! 2),
                               shape := (shape t)[2 := e - s]\<rparr>)))"

text \<open>\<^verbatim>\<open>torch.ones(size, device=, dtype=)\<close>: a new contiguous tensor filled with the one of its type.\<close>

definition ones :: "'a::one heap \<Rightarrow> nat list \<Rightarrow> device \<Rightarrow> dtype \<Rightarrow> tensor \<times> 'a heap" where
  "ones h sz dev dt =
     (\<lparr>storage = next_addr h, offset = 0, shape = sz, strides = contiguous_strides sz,
       dtype = dt, device = dev, layout = Strided\<rparr>,
      alloc h (replicate (prod_list sz) 1))"

text \<open>
  \<^verbatim>\<open>torch.cat(ts, dim=2)\<close> for strided operands of rank three, which is all forward passes to it:
  the operands agree on axes 0 and 1 and on the device, and the result is a new contiguous
  tensor whose rows are the operands' rows one after the other. Operands of different
  element types, which torch would convert to a common type, are reported as
  \<open>CatDtypes\<close>; operands of another rank as \<open>CatRank\<close>, of a sparse layout as
  \<open>CatLayouts\<close>.
\<close>

definition cat_dim2 :: "'a heap \<Rightarrow> tensor list \<Rightarrow> ('e error + tensor) \<times> 'a heap" where
  "cat_dim2 h ts =
     (case ts of
        [] \<Rightarrow> (Inl CatEmpty, h)
      | t # _ \<Rightarrow>
          if \<not> list_all (\<lambda>u. layout u = Strided) ts then (Inl CatLayouts, h)
          else if \<not> list_all (\<lambda>u. length (shape u) = 3) ts then (Inl CatRank, h)
          else if \<not> list_all (\<lambda>u. shape u ! 0 = shape t ! 0 \<and> shape u ! 1 = shape t ! 1) ts
            then (Inl CatSizes, h)
          else if \<not> list_all (\<lambda>u. device u = device t) ts then (Inl CatDevices, h)
          else if \<not> list_all (\<lambda>u. dtype u = dtype t) ts then (Inl CatDtypes, h)
          else
            let sz = [shape t ! 0, shape t ! 1, sum_list (map (\<lambda>u. shape u ! 2) ts)]
            in (Inr \<lparr>storage = next_addr h, offset = 0, shape = sz,
                     strides = contiguous_strides sz, dtype = dtype t, device = device t,
                     layout = Strided\<rparr>,
                alloc h (concat (map (\<lambda>i. concat (map (\<lambda>j. concat (map (\<lambda>u. row h u i j) ts))
                                                         [0..<shape t ! 1]))
                                     [0..<shape t ! 0]))))"

section \<open>WarpModel\<close>

text \<open>
  The wrapper has two fields: \<^verbatim>\<open>nc\<close>, a Python int, and \<^verbatim>\<open>model\<close>, the wrapped network,
  whose state has the type \<open>'m\<close>. The network itself is code of the ultralytics library:
  the call \<^verbatim>\<open>self.model(x)\<close> is the parameter \<open>call\<close>, which from the store, the
  network's state and the input gives the store and the network's state after the call
  and either the exception it raised or the pair it returned. The pair is in the type:
  \<^verbatim>\<open>preds, protos = self.model(x)\<close> unpacks two values, the first a tensor (it is
  permuted), the second anything at all, of the type \<open>'p\<close>. Whatever the rank of the
  first is, forward goes on; \<^verbatim>\<open>permute\<close> checks it.
\<close>

record 'm WarpModel =
  nc :: int
  model :: 'm

type_synonym ('a, 'm, 'e, 'p) network =
  "'a heap \<Rightarrow> 'm \<Rightarrow> tensor \<Rightarrow> ('e + tensor \<times> 'p) \<times> 'a heap \<times> 'm"

definition forward ::
  "('a::one, 'm, 'e, 'p) network \<Rightarrow> 'a heap \<Rightarrow> 'm WarpModel \<Rightarrow> tensor
     \<Rightarrow> ('e error + tensor \<times> 'p) \<times> 'a heap \<times> 'm WarpModel" where
  "forward call h self x =
     (case call h (model self) x of
        (Inl e, h1, m1) \<Rightarrow> (Inl (ModelRaised e), h1, self\<lparr>model := m1\<rparr>)
      | (Inr (preds0, protos), h1, m1) \<Rightarrow>
          (case permute preds0 [0, 2, 1] of
             Inl e \<Rightarrow> (Inl e, h1, self\<lparr>model := m1\<rparr>)
           | Inr preds \<Rightarrow>
          (case getitem_dim2 preds None (Some 4) of
             Inl e \<Rightarrow> (Inl e, h1, self\<lparr>model := m1\<rparr>)
           | Inr boxes \<Rightarrow>
          (case getitem_dim2 preds (Some 4) (Some (nc self + 4)) of
             Inl e \<Rightarrow> (Inl e, h1, self\<lparr>model := m1\<rparr>)
           | Inr classes \<Rightarrow>
          (case getitem_dim2 preds (Some (nc self + 4)) None of
             Inl e \<Rightarrow> (Inl e, h1, self\<lparr>model := m1\<rparr>)
           | Inr masks \<Rightarrow>
          (case ones h1 [shape boxes ! 0, shape boxes ! 1, 1] (device boxes) (dtype boxes) of
             (one_channel, h2) \<Rightarrow>
          (case cat_dim2 h2 [boxes, one_channel, classes, masks] of
             (Inl e, h3) \<Rightarrow> (Inl e, h3, self\<lparr>model := m1\<rparr>)
           | (Inr dets, h3) \<Rightarrow> (Inr (dets, protos), h3, self\<lparr>model := m1\<rparr>))))))))"

section \<open>The wrapped network and the constructor\<close>

text \<open>
  The network is a torch module: here the list of its submodules, as \<^verbatim>\<open>named_modules\<close>
  walks them. A module has a class, of which \<^verbatim>\<open>__init__\<close> tells apart \<open>Detect\<close> (with
  its subclasses, as \<^verbatim>\<open>isinstance\<close> does), \<open>RTDETRDecoder\<close> and \<open>C2f\<close>; its own
  parameters; the \<^verbatim>\<open>training\<close> flag; and the attributes \<^verbatim>\<open>__init__\<close> assigns. A
  parameter has the \<^verbatim>\<open>requires_grad\<close> flag, an element type, a device and its data,
  which no operation here looks into.
\<close>

datatype module_kind = Detect | RTDETRDecoder | C2f | Conv | BatchNorm2d | OtherModule

record 'w parameter =
  requires_grad :: bool
  param_dtype :: dtype
  param_device :: device
  param_data :: 'w

record 'w nn_module =
  kind :: module_kind
  params :: "'w parameter list"
  training :: bool
  dynamic :: bool
  export :: bool
  format :: "string option"
  forward_split :: bool

type_synonym 'w net = "'w nn_module list"

text \<open>The notebook's global \<^verbatim>\<open>device = torch.device('cpu')\<close>.\<close>

definition global_device :: device where
  "global_device = CPU"

text \<open>
  \<^verbatim>\<open>model.parameters()\<close>, \<^verbatim>\<open>model.to(device)\<close>, the loop that clears \<^verbatim>\<open>requires_grad\<close>,
  \<^verbatim>\<open>model.eval()\<close> and \<^verbatim>\<open>model.float()\<close>, which casts the floating point parameters.
\<close>

definition parameters :: "'w net \<Rightarrow> 'w parameter list" where
  "parameters m = concat (map params m)"

definition to_device :: "device \<Rightarrow> 'w net \<Rightarrow> 'w net" where
  "to_device d m = map (\<lambda>l. l\<lparr>params := map (\<lambda>p. p\<lparr>param_device := d\<rparr>) (params l)\<rparr>) m"

definition freeze :: "'w net \<Rightarrow> 'w net" where
  "freeze m = map (\<lambda>l. l\<lparr>params := map (\<lambda>p. p\<lparr>requires_grad := False\<rparr>) (params l)\<rparr>) m"

definition eval :: "'w net \<Rightarrow> 'w net" where
  "eval m = map (\<lambda>l. l\<lparr>training := False\<rparr>) m"

definition is_floating_point :: "dtype \<Rightarrow> bool" where
  "is_floating_point dt = (dt = Float16 \<or> dt = BFloat16 \<or> dt = Float32 \<or> dt = Float64)"

definition float :: "'w net \<Rightarrow> 'w net" where
  "float m =
     map (\<lambda>l. l\<lparr>params := map (\<lambda>p. if is_floating_point (param_dtype p)
                                       then p\<lparr>param_dtype := Float32\<rparr> else p) (params l)\<rparr>) m"

text \<open>The body of the loop over \<^verbatim>\<open>named_modules()\<close>.\<close>

definition set_export_attributes :: "'w nn_module \<Rightarrow> 'w nn_module" where
  "set_export_attributes l =
     (if kind l = Detect \<or> kind l = RTDETRDecoder
      then l\<lparr>dynamic := False, export := True, format := Some ''onnx''\<rparr>
      else if kind l = C2f then l\<lparr>forward_split := True\<rparr>
      else l)"

text \<open>
  \<^verbatim>\<open>WarpModel.__init__\<close>. Loading the weights (\<^verbatim>\<open>YOLO(weights).model\<close>, which can
  raise) and \<^verbatim>\<open>fuse()\<close> are the library's and are the parameters \<open>load\<close> and
  \<open>fuse\<close>; \<^verbatim>\<open>deepcopy\<close> gives an equal value.
\<close>

definition init ::
  "(string \<Rightarrow> 'x + 'w net) \<Rightarrow> ('w net \<Rightarrow> 'w net) \<Rightarrow> string \<Rightarrow> int \<Rightarrow> 'x + 'w net WarpModel" where
  "init load fuse weights nc0 =
     (case load weights of
        Inl e \<Rightarrow> Inl e
      | Inr yolo_model \<Rightarrow>
          let m = to_device global_device yolo_model;
              m = freeze m;
              m = eval m;
              m = float m;
              m = fuse m;
              m = map set_export_attributes m
          in Inr \<lparr>nc = nc0, model = m\<rparr>)"

text \<open>The state \<^verbatim>\<open>__init__\<close> is to leave the network in.\<close>

definition frozen :: "'w net \<Rightarrow> bool" where
  "frozen m = list_all (\<lambda>p. \<not> requires_grad p) (parameters m)"

definition eval_mode :: "'w net \<Rightarrow> bool" where
  "eval_mode m = list_all (\<lambda>l. \<not> training l) m"

definition float_precision :: "'w net \<Rightarrow> bool" where
  "float_precision m =
     list_all (\<lambda>p. is_floating_point (param_dtype p) \<longrightarrow> param_dtype p = Float32) (parameters m)"

text \<open>
  What \<^verbatim>\<open>__init__\<close> has made of the loaded network when it hands it to \<^verbatim>\<open>fuse\<close>: the same
  modules with their classes, attributes and weights, every module out of training mode,
  every parameter on the device, with \<^verbatim>\<open>requires_grad\<close> cleared and a floating point element
  type cast to float32.
\<close>

definition prepared_parameter :: "'w parameter \<Rightarrow> 'w parameter \<Rightarrow> bool" where
  "prepared_parameter p0 p =
     (\<not> requires_grad p \<and> param_device p = global_device \<and>
      param_dtype p = (if is_floating_point (param_dtype p0) then Float32 else param_dtype p0) \<and>
      param_data p = param_data p0)"

definition prepared_module :: "'w nn_module \<Rightarrow> 'w nn_module \<Rightarrow> bool" where
  "prepared_module l0 l =
     (kind l = kind l0 \<and> \<not> training l \<and> dynamic l = dynamic l0 \<and> export l = export l0 \<and>
      format l = format l0 \<and> forward_split l = forward_split l0 \<and>
      list_all2 prepared_parameter (params l0) (params l))"

definition prepared :: "'w net \<Rightarrow> 'w net \<Rightarrow> bool" where
  "prepared loaded m = list_all2 prepared_module loaded m"

text \<open>One forward call after the other, on the store and the wrapper the last one left.\<close>

fun run_forward ::
  "('a::one, 'm, 'e, 'p) network \<Rightarrow> 'a heap \<Rightarrow> 'm WarpModel \<Rightarrow> tensor list \<Rightarrow> 'a heap \<times> 'm WarpModel" where
  "run_forward call h self [] = (h, self)"
| "run_forward call h self (x # xs) =
     (case forward call h self x of (_, h', self') \<Rightarrow> run_forward call h' self' xs)"


section \<open>Observing an outcome, and a stand-in network\<close>

text \<open>
  What a caller sees of the outcome of forward: the sizes of the detections it returned and
  their rows, read in the store the call left; \<open>None\<close> when the call raised.
\<close>

definition returned_shape ::
  "('e error + tensor \<times> 'p) \<times> 'a heap \<times> 'm WarpModel \<Rightarrow> nat list option" where
  "returned_shape r = (case r of (Inr (dets, _), _, _) \<Rightarrow> Some (shape dets) | _ \<Rightarrow> None)"

definition returned_row ::
  "('e error + tensor \<times> 'p) \<times> 'a heap \<times> 'm WarpModel \<Rightarrow> nat \<Rightarrow> nat \<Rightarrow> 'a list option" where
  "returned_row r i j = (case r of (Inr (dets, _), h3, _) \<Rightarrow> Some (row h3 dets i j) | _ \<Rightarrow> None)"

definition returned_protos ::
  "('e error + tensor \<times> 'p) \<times> 'a heap \<times> 'm WarpModel \<Rightarrow> 'p option" where
  "returned_protos r = (case r of (Inr (_, protos), _, _) \<Rightarrow> Some protos | _ \<Rightarrow> None)"

text \<open>
  Two stand-ins for the network, for the examples below. The first allocates two buffers
  and returns contiguous float tensors of the given sizes over them, whatever its input and
  without touching its own state; the second raises.
\<close>

definition fixed_network ::
  "nat list \<Rightarrow> 'a list \<Rightarrow> nat list \<Rightarrow> 'a list \<Rightarrow> ('a, 'm, 'e, tensor) network" where
  "fixed_network shp buf shq bufq h m x =
     (Inr (\<lparr>storage = next_addr h, offset = 0, shape = shp, strides = contiguous_strides shp,
            dtype = Float32, device = CPU, layout = Strided\<rparr>,
           \<lparr>storage = Suc (next_addr h), offset = 0, shape = shq, strides = contiguous_strides shq,
            dtype = Float32, device = CPU, layout = Strided\<rparr>),
      alloc (alloc h buf) bufq, m)"

text \<open>The same network, but its predictions come back in a sparse layout.\<close>

definition sparse_network ::
  "nat list \<Rightarrow> 'a list \<Rightarrow> nat list \<Rightarrow> 'a list \<Rightarrow> ('a, 'm, 'e, tensor) network" where
  "sparse_network shp buf shq bufq h m x =
     (Inr (\<lparr>storage = next_addr h, offset = 0, shape = shp, strides = contiguous_strides shp,
            dtype = Float32, device = CPU, layout = SparseCoo\<rparr>,
           \<lparr>storage = Suc (next_addr h), offset = 0, shape = shq, strides = contiguous_strides shq,
            dtype = Float32, device = CPU, layout = Strided\<rparr>),
      alloc (alloc h buf) bufq, m)"

definition raising_network :: "'e \<Rightarrow> ('a, 'm, 'e, 'p) network" where
  "raising_network e h m x = (Inl e, h, m)"

definition empty_heap :: "'a heap" where
  "empty_heap = \<lparr>cells = (\<lambda>_. []), next_addr = 0\<rparr>"

text \<open>A store holding one input image of two by two pixels, and the input tensor over it.\<close>

definition demo_heap :: "int heap" where
  "demo_heap = alloc empty_heap [0, 0, 0, 0, 0, 0, 0, 0, 0, 0, 0, 0]"

definition demo_input :: tensor where
  "demo_input = \<lparr>storage = 0, offset = 0, shape = [1, 3, 2, 2], strides = [12, 4, 2, 1],
                  dtype = Float32, device = CPU, layout = Strided\<rparr>"

text \<open>
  One image, two anchors, seven channels (four box coordinates, two classes, one mask
  coefficient), and one prototype of two by two.
\<close>

definition demo_network :: "(int, 'm, unit, tensor) network" where
  "demo_network =
     fixed_network [1, 7, 2] [10, 11, 20, 21, 30, 31, 40, 41, 50, 51, 60, 61, 70, 71]
       [1, 1, 2, 2] [1, 2, 3, 4]"

definition demo_preds :: tensor where
  "demo_preds = \<lparr>storage = 1, offset = 0, shape = [1, 7, 2], strides = [14, 2, 1],
                  dtype = Float32, device = CPU, layout = Strided\<rparr>"

definition demo_heap1 :: "int heap" where
  "demo_heap1 =
     alloc (alloc demo_heap [10, 11, 20, 21, 30, 31, 40, 41, 50, 51, 60, 61, 70, 71]) [1, 2, 3, 4]"

definition demo_protos :: tensor where
  "demo_protos = \<lparr>storage = 2, offset = 0, shape = [1, 1, 2, 2], strides = [4, 4, 2, 1],
                   dtype = Float32, device = CPU, layout = Strided\<rparr>"






text \<open>Three channels only, fewer than the four box coordinates; and predictions of rank two.\<close>

definition tiny_network :: "(int, unit, unit, tensor) network" where
  "tiny_network = fixed_network [1, 3, 2] [10, 11, 20, 21, 30, 31] [1, 1, 2, 2] [1, 2, 3, 4]"

definition flat_network :: "(int, unit, unit, tensor) network" where
  "flat_network = fixed_network [3, 2] [10, 11, 20, 21, 30, 31] [1, 1, 2, 2] [1, 2, 3, 4]"

text \<open>Sparse predictions of rank three, with the sizes of the first example.\<close>

definition demo_sparse_network :: "(int, unit, unit, tensor) network" where
  "demo_sparse_network =
     sparse_network [1, 7, 2] [10, 11, 20, 21, 30, 31, 40, 41, 50, 51, 60, 61, 70, 71]
       [1, 1, 2, 2] [1, 2, 3, 4]"

text \<open>
  A network of four modules to load, and a stand-in for \<^verbatim>\<open>fuse\<close> that drops the
  normalisation layers.
\<close>

definition demo_modules :: "unit net" where
  "demo_modules =
     [\<lparr>kind = Conv,
       params = [\<lparr>requires_grad = True, param_dtype = Float16, param_device = CUDA 0, param_data = ()\<rparr>],
       training = True, dynamic = False, export = False, format = None, forward_split = False\<rparr>,
      \<lparr>kind = BatchNorm2d,
       params = [\<lparr>requires_grad = True, param_dtype = Float16, param_device = CUDA 0, param_data = ()\<rparr>,
                 \<lparr>requires_grad = False, param_dtype = Int64, param_device = CUDA 0, param_data = ()\<rparr>],
       training = True, dynamic = False, export = False, format = None, forward_split = False\<rparr>,
      \<lparr>kind = C2f, params = [], training = True, dynamic = False, export = False, format = None,
       forward_split = False\<rparr>,
      \<lparr>kind = Detect,
       params = [\<lparr>requires_grad = True, param_dtype = Float32, param_device = CUDA 0, param_data = ()\<rparr>],
       training = True, dynamic = True, export = False, format = None, forward_split = False\<rparr>]"

definition demo_load :: "string \<Rightarrow> string + unit net" where
  "demo_load weights = (if weights = ''yolov8l-seg.pt'' then Inr demo_modules else Inl ''FileNotFoundError'')"

definition demo_fuse :: "'w net \<Rightarrow> 'w net" where
  "demo_fuse m = filter (\<lambda>l. kind l \<noteq> BatchNorm2d) m"

section \<open>Values of outcomes, and what an inference call may do\<close>

text \<open>
  The outcome of a call as values: the exception, or the values of the two tensors returned,
  read in the store the call left.
\<close>

definition returned_values ::
  "('x + tensor \<times> tensor) \<times> 'a heap \<times> 's
     \<Rightarrow> 'x + (nat list \<times> dtype \<times> device \<times> layout \<times> 'a list)
               \<times> (nat list \<times> dtype \<times> device \<times> layout \<times> 'a list)" where
  "returned_values r =
     (case r of (out, h', _) \<Rightarrow> map_sum id (\<lambda>(p, q). (tvalue h' p, tvalue h' q)) out)"

text \<open>
  The contract of an inference call, for the statements that compare calls: a call leaves the
  network's state as it was, writes only to storage it allocates, returns tensors that
  live in the store it leaves, and returns values that are determined by the network's
  state and the value of the input. This is inference with the library's network in eval
  mode, as \<^verbatim>\<open>__init__\<close> sets it up; the library's code is not part of the repository.
\<close>

definition pure_inference :: "('a, 'm, 'e, tensor) network \<Rightarrow> bool" where
  "pure_inference call =
     (\<forall>h m x. case call h m x of (rc, h1, m1) \<Rightarrow>
        m1 = m \<and> next_addr h \<le> next_addr h1 \<and> (\<forall>a<next_addr h. cells h1 a = cells h a) \<and>
        (case rc of
           Inl _ \<Rightarrow> True
         | Inr (p, q) \<Rightarrow> allocated h1 p \<and> allocated h1 q \<and> length (strides p) = length (shape p)) \<and>
        (\<forall>h' x'. tvalue h' x' = tvalue h x \<longrightarrow>
           returned_values (call h' m x') = returned_values (call h m x)))"

section \<open>The round trip\<close>

text \<open>
  The row \<^verbatim>\<open>preds[i, :, j]\<close> of the predictions the network returns, which is the row
  \<open>(i, j)\<close> of the permuted tensor; and a row with its entry at index \<open>k\<close> deleted.
\<close>

definition predicted_row ::
  "('a, 'm, 'e, 'p) network \<Rightarrow> 'a heap \<Rightarrow> 'm \<Rightarrow> tensor \<Rightarrow> nat \<Rightarrow> nat \<Rightarrow> 'a list option" where
  "predicted_row call h m x i j =
     (case call h m x of
        (Inl _, _, _) \<Rightarrow> None
      | (Inr (preds0, _), h1, _) \<Rightarrow>
          (case (permute preds0 [0, 2, 1] :: unit error + tensor) of
             Inl _ \<Rightarrow> None
           | Inr preds \<Rightarrow> Some (row h1 preds i j)))"

definition delete_channel :: "nat \<Rightarrow> 'a list \<Rightarrow> 'a list" where
  "delete_channel k r = take k r @ drop (Suc k) r"

section \<open>Lists of rows\<close>

lemma length_concat_uniform:
  "(\<forall>xs\<in>set xss. length xs = w) \<Longrightarrow> length (concat xss) = length xss * w"
  by (induction xss) auto

lemma nth_concat_uniform:
  "(\<forall>xs\<in>set xss. length xs = w) \<Longrightarrow> i < length xss \<Longrightarrow> j < w
     \<Longrightarrow> concat xss ! (i * w + j) = xss ! i ! j"
proof (induction xss arbitrary: i)
  case Nil
  then show ?case by simp
next
  case (Cons ys xss)
  show ?case
  proof (cases i)
    case 0
    with Cons.prems show ?thesis by (simp add: nth_append)
  next
    case (Suc i')
    with Cons.prems have "concat xss ! (i' * w + j) = xss ! i' ! j"
      by (intro Cons.IH) auto
    with Suc Cons.prems show ?thesis by (simp add: nth_append)
  qed
qed

lemma index_in_block: "j < (n::nat) \<Longrightarrow> k < w \<Longrightarrow> j * w + k < n * w"
proof -
  assume a: "j < n" "k < w"
  then have "j * w + k < Suc j * w" by simp
  also from a have "Suc j * w \<le> n * w" by (intro mult_le_mono1) simp
  finally show ?thesis .
qed

lemma nth_rows:
  assumes len: "\<forall>i<B. \<forall>j<A. length (R i j) = W"
    and i: "i < B" and j: "j < A" and k: "k < W"
  shows "concat (map (\<lambda>i. concat (map (R i) [0..<A])) [0..<B]) ! (i * (A * W) + j * W + k)
           = R i j ! k"
proof -
  let ?F = "\<lambda>i. concat (map (R i) [0..<A])"
  have lenF: "\<forall>xs\<in>set (map ?F [0..<B]). length xs = A * W"
  proof
    fix xs assume "xs \<in> set (map ?F [0..<B])"
    then obtain i' where i': "i' < B" and xs: "xs = ?F i'" by auto
    from len i' have "\<forall>ys\<in>set (map (R i') [0..<A]). length ys = W" by auto
    from length_concat_uniform [OF this] xs show "length xs = A * W" by simp
  qed
  have jk: "j * W + k < A * W" using j k by (rule index_in_block)
  have "concat (map ?F [0..<B]) ! (i * (A * W) + (j * W + k)) = map ?F [0..<B] ! i ! (j * W + k)"
    using lenF i jk by (intro nth_concat_uniform) auto
  also have "\<dots> = ?F i ! (j * W + k)" using i by simp
  also have "\<dots> = map (R i) [0..<A] ! j ! k"
    using len i j k by (intro nth_concat_uniform) auto
  also have "\<dots> = R i j ! k" using j by simp
  finally show ?thesis by (simp add: add.assoc)
qed

lemma permute_021:
  "length (shape t) = 3 \<Longrightarrow>
   permute t [0, 2, 1] =
     Inr (t\<lparr>shape := [shape t ! 0, shape t ! 2, shape t ! 1],
            strides := [strides t ! 0, strides t ! 2, strides t ! 1]\<rparr>)"
  by (simp add: permute_def)

lemma permute_021_fails: "length (shape t) \<noteq> 3 \<Longrightarrow> permute t [0, 2, 1] = Inl PermuteDims"
  by (simp add: permute_def)

lemma getitem_dim2_sparse:
  "length (shape t) = 3 \<Longrightarrow> layout t \<noteq> Strided \<Longrightarrow> getitem_dim2 t start stop = Inl SlicingSparse"
  by (simp add: getitem_dim2_def)

lemma getitem_dim2_rank3:
  "shape t = [d0, d1, d2] \<Longrightarrow> layout t = Strided \<Longrightarrow>
   getitem_dim2 t start stop =
     Inr (t\<lparr>offset := offset t + fst (slice_indices start stop d2) * (strides t ! 2),
            shape := [d0, d1, snd (slice_indices start stop d2) - fst (slice_indices start stop d2)]\<rparr>)"
  by (simp add: getitem_dim2_def split: prod.splits)

lemma length_row [simp]: "length (row h t i j) = shape t ! 2"
  by (simp add: row_def)

lemma at3_sliced:
  "at3 h (t\<lparr>offset := offset t + s * (strides t ! 2), shape := sh\<rparr>) i j k = at3 h t i j (s + k)"
  by (simp add: at3_def algebra_simps)

lemma row_sliced:
  "row h (t\<lparr>offset := offset t + s * (strides t ! 2), shape := [d0, d1, e - s]\<rparr>) i j
     = map (at3 h t i j) [s..<e]"
proof (cases "s \<le> e")
  case True
  have "map (at3 h t i j) [s..<e] = map (at3 h t i j) (map (\<lambda>k. k + s) [0..<e - s])"
    using True by (simp add: map_add_upt)
  then show ?thesis
    by (simp add: row_def at3_sliced comp_def add.commute)
next
  case False
  then show ?thesis by (simp add: row_def)
qed

lemma cat_dim2_frame:
  "cat_dim2 h ts = (r, h') \<Longrightarrow> a < next_addr h \<Longrightarrow> cells h' a = cells h a"
  by (auto simp: cat_dim2_def alloc_def Let_def split: list.splits if_splits)

lemma row_cat_dim2:
  assumes cat: "cat_dim2 h ts = (Inr d, h')"
    and i: "i < shape d ! 0" and j: "j < shape d ! 1"
  shows "row h' d i j = concat (map (\<lambda>u. row h u i j) ts)"
proof -
  from cat obtain t us where ts: "ts = t # us"
    by (cases ts) (auto simp: cat_dim2_def)
  let ?B = "shape t ! 0" and ?A = "shape t ! 1"
  let ?W = "sum_list (map (\<lambda>u. shape u ! 2) ts)"
  let ?R = "\<lambda>i j. concat (map (\<lambda>u. row h u i j) ts)"
  let ?data = "concat (map (\<lambda>i. concat (map (?R i) [0..<?A])) [0..<?B])"
  from cat ts have d: "d = \<lparr>storage = next_addr h, offset = 0, shape = [?B, ?A, ?W],
      strides = contiguous_strides [?B, ?A, ?W], dtype = dtype t, device = device t,
      layout = Strided\<rparr>"
    and h': "h' = alloc h ?data"
    by (auto simp: cat_dim2_def Let_def split: if_splits)
  have len: "\<forall>i<?B. \<forall>j<?A. length (?R i j) = ?W"
    by (simp add: length_concat comp_def)
  have "row h' d i j = map (\<lambda>k. ?data ! (i * (?A * ?W) + j * ?W + k)) [0..<?W]"
    by (simp add: row_def at3_def d h' alloc_def)
  also have "\<dots> = map (\<lambda>k. ?R i j ! k) [0..<?W]"
    using i j len by (intro map_cong refl nth_rows) (auto simp: d)
  also have "\<dots> = ?R i j"
  proof -
    have "length (?R i j) = ?W" by (simp add: length_concat comp_def)
    with map_nth [of "?R i j"] show ?thesis by simp
  qed
  finally show ?thesis .
qed

lemma at3_alloc: "allocated h t \<Longrightarrow> at3 (alloc h buf) t i j k = at3 h t i j k"
  by (simp add: at3_def alloc_def allocated_def)

lemma clamp_index_4: "clamp_index 4 n = min 4 n"
  by (simp add: clamp_index_def)

lemma clamp_index_le: "clamp_index i n \<le> n"
  unfolding clamp_index_def by (cases "i < 0") auto

lemma cat_dim2_returns:
  assumes "\<forall>u\<in>set (t # us). length (shape u) = 3 \<and> shape u ! 0 = shape t ! 0 \<and>
             shape u ! 1 = shape t ! 1 \<and> device u = device t \<and> dtype u = dtype t \<and>
             layout u = Strided"
  shows "\<exists>d h'. cat_dim2 h (t # us) = (Inr d, h') \<and>
           shape d = [shape t ! 0, shape t ! 1, sum_list (map (\<lambda>u. shape u ! 2) (t # us))] \<and>
           dtype d = dtype t \<and> device d = device t \<and> storage d = next_addr h \<and>
           next_addr h' = Suc (next_addr h) \<and> offset d = 0 \<and> length (strides d) = 3 \<and>
           layout d = Strided"
  using assms by (simp add: cat_dim2_def list_all_iff Let_def alloc_def)

lemma row_ones:
  assumes "ones h [B, A, 1] dev dt = (t, h')" and "i < B" and "j < A"
  shows "row h' t i j = [1]"
proof -
  have "i * A + j < B * A" using assms(2,3) by (rule index_in_block)
  with assms(1) show ?thesis
    by (auto simp: ones_def row_def at3_def alloc_def)
qed

lemma rank3_shape: "length xs = 3 \<Longrightarrow> \<exists>a b c. xs = [a, b, c]"
  by (auto simp: length_Suc_conv numeral_3_eq_3)

lemma upt_split3:
  assumes "a \<le> b" "b \<le> c"
  shows "[0..<a] @ [a..<b] @ [b..<c] = [0..<c]"
proof -
  have "[a..<b] @ [b..<c] = [a..<c]" using assms by (metis le_Suc_ex upt_add_eq_append)
  moreover have "[0..<a] @ [a..<c] = [0..<c]" using assms by (metis le_Suc_ex le_trans upt_add_eq_append zero_le)
  ultimately show ?thesis by simp
qed

lemma clamp_index_nonneg: "0 \<le> i \<Longrightarrow> clamp_index (i + 4) n = min (nat i + 4) n"
  by (auto simp: clamp_index_def)

lemma row_nth: "k < shape t ! 2 \<Longrightarrow> row h t i j ! k = at3 h t i j k"
  by (simp add: row_def)

section \<open>What forward computes\<close>

lemma forward_trace:
  fixes call :: "('a::one, 'm, 'e, 'p) network"
  assumes call: "call h (model self) x = (Inr (preds0, protos), h1, m1)"
    and shp: "shape preds0 = [B, C, A]"
    and kb: "kb = min 4 C" and ke: "ke = clamp_index (nc self + 4) C"
    and lay: "layout preds0 = Strided"
  obtains preds boxes classes masks one_channel h2 dets h3 where
    "permute preds0 [0, 2, 1] = (Inr preds :: 'e error + tensor)"
    "getitem_dim2 preds None (Some 4) = (Inr boxes :: 'e error + tensor)"
    "getitem_dim2 preds (Some 4) (Some (nc self + 4)) = (Inr classes :: 'e error + tensor)"
    "getitem_dim2 preds (Some (nc self + 4)) None = (Inr masks :: 'e error + tensor)"
    "ones h1 [shape boxes ! 0, shape boxes ! 1, 1] (device boxes) (dtype boxes) = (one_channel, h2 :: 'a heap)"
    "cat_dim2 h2 [boxes, one_channel, classes, masks] = (Inr dets :: 'e error + tensor, h3)"
    "forward call h self x = (Inr (dets, protos), h3, self\<lparr>model := m1\<rparr>)"
    "shape preds = [B, A, C]" "shape boxes = [B, A, kb]" "shape one_channel = [B, A, 1]"
    "shape classes = [B, A, ke - kb]" "shape masks = [B, A, C - ke]"
    "shape dets = [B, A, kb + 1 + (ke - kb) + (C - ke)]"
    "list_all (\<lambda>u. dtype u = dtype preds0 \<and> device u = device preds0)
       [preds, boxes, one_channel, classes, masks, dets]"
    "storage one_channel = next_addr h1" "storage dets = Suc (next_addr h1)"
    "next_addr h2 = Suc (next_addr h1)" "next_addr h3 = Suc (Suc (next_addr h1))"
    "\<forall>a<next_addr h1. cells h2 a = cells h1 a \<and> cells h3 a = cells h1 a"
    "\<forall>i j. row h1 preds i j = map (\<lambda>k. at3 h1 preds0 i k j) [0..<C] \<and>
           row h1 boxes i j = map (\<lambda>k. at3 h1 preds0 i k j) [0..<kb] \<and>
           row h1 classes i j = map (\<lambda>k. at3 h1 preds0 i k j) [kb..<ke] \<and>
           row h1 masks i j = map (\<lambda>k. at3 h1 preds0 i k j) [ke..<C]"
    "\<forall>i<B. \<forall>j<A. row h2 one_channel i j = [1]"
    "\<forall>i<B. \<forall>j<A. row h3 dets i j =
       row h2 boxes i j @ row h2 one_channel i j @ row h2 classes i j @ row h2 masks i j"
    "allocated h1 preds0 \<longrightarrow> (\<forall>i<B. \<forall>j<A.
       row h3 dets i j =
         map (\<lambda>k. at3 h1 preds0 i k j) [0..<kb] @ [1] @
         map (\<lambda>k. at3 h1 preds0 i k j) [kb..<ke] @
         map (\<lambda>k. at3 h1 preds0 i k j) [ke..<C])"
    "offset dets = 0 \<and> length (strides dets) = 3"
    "layout dets = Strided"
proof -
  define preds where "preds = preds0\<lparr>shape := [B, A, C],
    strides := [strides preds0 ! 0, strides preds0 ! 2, strides preds0 ! 1]\<rparr>"
  define boxes where "boxes = preds\<lparr>offset := offset preds + 0 * (strides preds ! 2),
    shape := [B, A, kb - 0]\<rparr>"
  define classes where "classes = preds\<lparr>offset := offset preds + kb * (strides preds ! 2),
    shape := [B, A, ke - kb]\<rparr>"
  define masks where "masks = preds\<lparr>offset := offset preds + ke * (strides preds ! 2),
    shape := [B, A, C - ke]\<rparr>"
  define one_channel :: tensor
    where "one_channel = fst (ones h1 [B, A, 1] (device preds0) (dtype preds0) :: tensor \<times> 'a heap)"
  define h2 :: "'a heap" where "h2 = snd (ones h1 [B, A, 1] (device preds0) (dtype preds0))"
  have perm: "permute preds0 [0, 2, 1] = (Inr preds :: 'e error + tensor)"
    using shp permute_021 [of preds0] by (simp add: preds_def)
  have sp: "shape preds = [B, A, C]" by (simp add: preds_def)
  have lp: "layout preds = Strided" by (simp add: preds_def lay)
  have gb: "getitem_dim2 preds None (Some 4) = (Inr boxes :: 'e error + tensor)"
    by (simp add: getitem_dim2_rank3 [OF sp lp] slice_indices_def clamp_index_4 boxes_def kb)
  have gc: "getitem_dim2 preds (Some 4) (Some (nc self + 4)) = (Inr classes :: 'e error + tensor)"
    by (simp add: getitem_dim2_rank3 [OF sp lp] slice_indices_def clamp_index_4 classes_def kb ke)
  have gm: "getitem_dim2 preds (Some (nc self + 4)) None = (Inr masks :: 'e error + tensor)"
    by (simp add: getitem_dim2_rank3 [OF sp lp] slice_indices_def masks_def ke)
  have sh: "shape boxes = [B, A, kb]" "shape classes = [B, A, ke - kb]" "shape masks = [B, A, C - ke]"
    and dt: "dtype preds = dtype preds0" "dtype boxes = dtype preds0" "dtype classes = dtype preds0"
      "dtype masks = dtype preds0"
    and dv: "device preds = device preds0" "device boxes = device preds0"
      "device classes = device preds0" "device masks = device preds0"
    and ly: "layout boxes = Strided" "layout classes = Strided" "layout masks = Strided"
    by (simp_all add: boxes_def classes_def masks_def preds_def lay)
  have on: "ones h1 [shape boxes ! 0, shape boxes ! 1, 1] (device boxes) (dtype boxes) = (one_channel, h2)"
    by (simp add: one_channel_def h2_def sh dt dv)
  have on': "ones h1 [B, A, 1] (device preds0) (dtype preds0) = (one_channel, h2)"
    by (simp add: one_channel_def h2_def)
  have so: "shape one_channel = [B, A, 1]" "dtype one_channel = dtype preds0"
    "device one_channel = device preds0" "storage one_channel = next_addr h1"
    "layout one_channel = Strided"
    by (simp_all add: one_channel_def ones_def)
  have h2: "next_addr h2 = Suc (next_addr h1)" "\<forall>a<next_addr h1. cells h2 a = cells h1 a"
    by (simp_all add: h2_def ones_def alloc_def)
  have "\<forall>u\<in>set (boxes # [one_channel, classes, masks]). length (shape u) = 3 \<and>
      shape u ! 0 = shape boxes ! 0 \<and> shape u ! 1 = shape boxes ! 1 \<and>
      device u = device boxes \<and> dtype u = dtype boxes \<and> layout u = Strided"
    by (simp add: sh dt dv so ly)
  from cat_dim2_returns [OF this, of h2]
  obtain dets h3 where cat: "cat_dim2 h2 [boxes, one_channel, classes, masks] = (Inr dets :: 'e error + tensor, h3)"
    and sd0: "shape dets = [shape boxes ! 0, shape boxes ! 1,
        sum_list (map (\<lambda>u. shape u ! 2) [boxes, one_channel, classes, masks])]"
    and dd0: "dtype dets = dtype boxes" "device dets = device boxes"
    and st0: "storage dets = next_addr h2" and nx0: "next_addr h3 = Suc (next_addr h2)"
    and sr0: "offset dets = 0 \<and> length (strides dets) = 3"
    and ld: "layout dets = Strided"
    by blast
  have sd: "shape dets = [B, A, kb + 1 + (ke - kb) + (C - ke)]"
    using sd0 by (simp add: sh so)
  have dd: "dtype dets = dtype preds0" "device dets = device preds0"
    using dd0 by (simp_all add: dt dv)
  have st: "storage dets = Suc (next_addr h1)" and nx: "next_addr h3 = Suc (Suc (next_addr h1))"
    using st0 nx0 h2 by simp_all
  have fw: "forward call h self x = (Inr (dets, protos), h3, self\<lparr>model := m1\<rparr>)"
    unfolding forward_def by (simp only: call perm gb gc gm on cat prod.case sum.case)
  have frame: "\<forall>a<next_addr h1. cells h2 a = cells h1 a \<and> cells h3 a = cells h1 a"
    using cat_dim2_frame [OF cat] h2 by simp
  have rp: "at3 hh preds i j k = at3 hh preds0 i k j" for hh :: "'a heap" and i j k
    by (simp add: at3_def preds_def add_ac)
  have r1: "row h1 preds i j = map (\<lambda>k. at3 h1 preds0 i k j) [0..<C] \<and>
           row h1 boxes i j = map (\<lambda>k. at3 h1 preds0 i k j) [0..<kb] \<and>
           row h1 classes i j = map (\<lambda>k. at3 h1 preds0 i k j) [kb..<ke] \<and>
           row h1 masks i j = map (\<lambda>k. at3 h1 preds0 i k j) [ke..<C]" for i j
  proof (intro conjI)
    show "row h1 preds i j = map (\<lambda>k. at3 h1 preds0 i k j) [0..<C]"
      by (simp add: row_def sp rp)
    show "row h1 boxes i j = map (\<lambda>k. at3 h1 preds0 i k j) [0..<kb]"
      unfolding boxes_def by (simp only: row_sliced) (simp add: rp)
    show "row h1 classes i j = map (\<lambda>k. at3 h1 preds0 i k j) [kb..<ke]"
      unfolding classes_def by (simp only: row_sliced) (simp add: rp)
    show "row h1 masks i j = map (\<lambda>k. at3 h1 preds0 i k j) [ke..<C]"
      unfolding masks_def by (simp only: row_sliced) (simp add: rp)
  qed
  have ro: "row h2 one_channel i j = [1]" if "i < B" "j < A" for i j
    using on' that by (rule row_ones)
  have rcat: "row h3 dets i j =
      row h2 boxes i j @ row h2 one_channel i j @ row h2 classes i j @ row h2 masks i j"
    if i: "i < B" and j: "j < A" for i j
  proof -
    have "row h3 dets i j = concat (map (\<lambda>u. row h2 u i j) [boxes, one_channel, classes, masks])"
      using i j by (intro row_cat_dim2 [OF cat]) (simp_all add: sd)
    then show ?thesis by simp
  qed
  have rows: "row h3 dets i j =
      map (\<lambda>k. at3 h1 preds0 i k j) [0..<kb] @ [1] @
      map (\<lambda>k. at3 h1 preds0 i k j) [kb..<ke] @
      map (\<lambda>k. at3 h1 preds0 i k j) [ke..<C]"
    if al: "allocated h1 preds0" and i: "i < B" and j: "j < A" for i j
  proof -
    have rd: "at3 h2 preds i j k = at3 h1 preds0 i k j" for k
      using al by (simp add: rp h2_def ones_def at3_alloc)
    have "row h3 dets i j =
        row h2 boxes i j @ row h2 one_channel i j @ row h2 classes i j @ row h2 masks i j"
      using i j by (rule rcat)
    also have "row h2 boxes i j = map (\<lambda>k. at3 h1 preds0 i k j) [0..<kb]"
      unfolding boxes_def by (simp only: row_sliced) (simp add: rd)
    also have "row h2 one_channel i j = [1]"
      using i j by (rule ro)
    also have "row h2 classes i j = map (\<lambda>k. at3 h1 preds0 i k j) [kb..<ke]"
      unfolding classes_def by (simp only: row_sliced) (simp add: rd)
    also have "row h2 masks i j = map (\<lambda>k. at3 h1 preds0 i k j) [ke..<C]"
      unfolding masks_def by (simp only: row_sliced) (simp add: rd)
    finally show ?thesis .
  qed
  show thesis
  proof (rule that [OF perm gb gc gm on cat fw sp sh(1) so(1) sh(2,3) sd _ so(4) st h2(1) nx frame])
    show "list_all (\<lambda>u. dtype u = dtype preds0 \<and> device u = device preds0)
       [preds, boxes, one_channel, classes, masks, dets]"
      by (simp add: dt dv so dd)
    show "\<forall>i j. row h1 preds i j = map (\<lambda>k. at3 h1 preds0 i k j) [0..<C] \<and>
           row h1 boxes i j = map (\<lambda>k. at3 h1 preds0 i k j) [0..<kb] \<and>
           row h1 classes i j = map (\<lambda>k. at3 h1 preds0 i k j) [kb..<ke] \<and>
           row h1 masks i j = map (\<lambda>k. at3 h1 preds0 i k j) [ke..<C]"
      using r1 by blast
    show "\<forall>i<B. \<forall>j<A. row h2 one_channel i j = [1]"
      using ro by blast
    show "\<forall>i<B. \<forall>j<A. row h3 dets i j =
       row h2 boxes i j @ row h2 one_channel i j @ row h2 classes i j @ row h2 masks i j"
      using rcat by blast
    show "allocated h1 preds0 \<longrightarrow> (\<forall>i<B. \<forall>j<A.
       row h3 dets i j =
         map (\<lambda>k. at3 h1 preds0 i k j) [0..<kb] @ [1] @
         map (\<lambda>k. at3 h1 preds0 i k j) [kb..<ke] @
         map (\<lambda>k. at3 h1 preds0 i k j) [ke..<C])"
      using rows by blast
    show "offset dets = 0 \<and> length (strides dets) = 3"
      by (rule sr0)
    show "layout dets = Strided"
      by (rule ld)
  qed
qed

lemma forward_model_raised:
  "call h (model self) x = (Inl e, h1, m1) \<Longrightarrow>
   forward call h self x = (Inl (ModelRaised e), h1, self\<lparr>model := m1\<rparr>)"
  by (simp add: forward_def)

lemma forward_bad_rank:
  fixes call :: "('a::one, 'm, 'e, 'p) network"
  assumes call: "call h (model self) x = (Inr (preds0, protos), h1, m1)"
    and rank: "length (shape preds0) \<noteq> 3"
  shows "forward call h self x = (Inl PermuteDims, h1, self\<lparr>model := m1\<rparr>)"
proof -
  have p: "permute preds0 [0, 2, 1] = (Inl PermuteDims :: 'e error + tensor)"
    using rank by (rule permute_021_fails)
  show ?thesis
    unfolding forward_def by (simp only: call p prod.case sum.case)
qed

lemma forward_sparse:
  fixes call :: "('a::one, 'm, 'e, 'p) network"
  assumes call: "call h (model self) x = (Inr (preds0, protos), h1, m1)"
    and rank: "length (shape preds0) = 3"
    and lay: "layout preds0 \<noteq> Strided"
  shows "\<exists>preds. permute preds0 [0, 2, 1] = (Inr preds :: 'e error + tensor) \<and>
           getitem_dim2 preds None (Some 4) = (Inl SlicingSparse :: 'e error + tensor) \<and>
           forward call h self x = (Inl SlicingSparse, h1, self\<lparr>model := m1\<rparr>)"
proof -
  from rank obtain B C A where shp: "shape preds0 = [B, C, A]"
    using rank3_shape by blast
  define preds where "preds = preds0\<lparr>shape := [B, A, C],
    strides := [strides preds0 ! 0, strides preds0 ! 2, strides preds0 ! 1]\<rparr>"
  have perm: "permute preds0 [0, 2, 1] = (Inr preds :: 'e error + tensor)"
    using shp permute_021 [of preds0] by (simp add: preds_def)
  have "length (shape preds) = 3" "layout preds \<noteq> Strided"
    by (simp_all add: preds_def lay)
  then have gb: "getitem_dim2 preds None (Some 4) = (Inl SlicingSparse :: 'e error + tensor)"
    by (rule getitem_dim2_sparse)
  have "forward call h self x = (Inl SlicingSparse, h1, self\<lparr>model := m1\<rparr>)"
    unfolding forward_def by (simp only: call perm gb prod.case sum.case)
  with perm gb show ?thesis by blast
qed

section \<open>Effects and values of forward\<close>

lemma forward_effects:
  fixes call :: "('a::one, 'm, 'e, 'p) network"
  assumes call: "call h (model self) x = (rc, h1, m1)"
  obtains r h' where "forward call h self x = (r, h', self\<lparr>model := m1\<rparr>)"
    "next_addr h1 \<le> next_addr h'" "\<forall>a<next_addr h1. cells h' a = cells h1 a"
proof (cases rc)
  case (Inl e)
  with call forward_model_raised [where call = call and h = h and self = self and x = x]
  have "forward call h self x = (Inl (ModelRaised e), h1, self\<lparr>model := m1\<rparr>)" by simp
  then show thesis by (rule that) simp_all
next
  case (Inr pq)
  obtain preds0 protos where pq: "pq = (preds0, protos)" by (cases pq) auto
  with call Inr have c: "call h (model self) x = (Inr (preds0, protos), h1, m1)" by simp
  show thesis
  proof (cases "length (shape preds0) = 3")
    case True
    from rank3_shape [OF True] obtain B C A where shp: "shape preds0 = [B, C, A]" by blast
    show thesis
    proof (cases "layout preds0 = Strided")
      case lay: True
      show thesis
      proof (rule forward_trace [where call = call and h = h and self = self and x = x,
            OF c shp refl refl lay])
        fix dets :: tensor and h2 h3 :: "'a heap"
        assume fw: "forward call h self x = (Inr (dets, protos), h3, self\<lparr>model := m1\<rparr>)"
          and nx: "next_addr h3 = Suc (Suc (next_addr h1))"
          and fr: "\<forall>a<next_addr h1. cells h2 a = cells h1 a \<and> cells h3 a = cells h1 a"
        show thesis by (rule that [OF fw]) (use nx fr in simp_all)
      qed
    next
      case False
      from forward_sparse [where call = call and h = h and self = self and x = x, OF c True False]
      have "forward call h self x = (Inl SlicingSparse, h1, self\<lparr>model := m1\<rparr>)" by blast
      then show thesis by (rule that) simp_all
    qed
  next
    case False
    from forward_bad_rank [where call = call and h = h and self = self and x = x, OF c False]
    show thesis by (rule that) simp_all
  qed
qed

lemma elems_rank3:
  assumes "shape t = [d0, d1, d2]" and "length (strides t) = 3"
  shows "elems (cells h (storage t)) (offset t) (shape t) (strides t)
           = concat (map (\<lambda>i. concat (map (\<lambda>j. row h t i j) [0..<d1])) [0..<d0])"
proof -
  from rank3_shape [OF assms(2)] obtain s0 s1 s2 where ss: "strides t = [s0, s1, s2]" by blast
  have "row h t i j = map (\<lambda>k. cells h (storage t) ! (offset t + i * s0 + j * s1 + k * s2)) [0..<d2]"
    for i j
    by (simp add: row_def at3_def assms(1) ss)
  then show ?thesis
    by (simp add: assms(1) ss add.assoc)
qed

lemma at3_of_elems:
  assumes sh: "shape t = [d0, d1, d2]" and st: "length (strides t) = 3"
    and i: "i < d0" and j: "j < d1" and k: "k < d2"
  shows "at3 h t i j k
           = elems (cells h (storage t)) (offset t) (shape t) (strides t) ! (i * (d1 * d2) + j * d2 + k)"
proof -
  have "\<forall>i<d0. \<forall>j<d1. length (row h t i j) = d2" by (simp add: sh)
  from nth_rows [OF this i j k] have
    "concat (map (\<lambda>i. concat (map (\<lambda>j. row h t i j) [0..<d1])) [0..<d0]) ! (i * (d1 * d2) + j * d2 + k)
       = row h t i j ! k" .
  also have "\<dots> = at3 h t i j k" using k by (simp add: row_def sh)
  finally show ?thesis by (simp add: elems_rank3 [OF sh st])
qed

lemma at3_of_tvalue:
  assumes v: "tvalue h t = tvalue h' t'"
    and sh: "shape t = [d0, d1, d2]"
    and st: "length (strides t) = 3" and st': "length (strides t') = 3"
    and i: "i < d0" and j: "j < d1" and k: "k < d2"
  shows "at3 h t i j k = at3 h' t' i j k"
proof -
  from v sh have sh': "shape t' = [d0, d1, d2]" by (simp add: tvalue_def)
  from arg_cong [OF v, of "\<lambda>v. snd (snd (snd (snd v)))"]
  have "elems (cells h (storage t)) (offset t) (shape t) (strides t)
      = elems (cells h' (storage t')) (offset t') (shape t') (strides t')"
    by (simp add: tvalue_def)
  with at3_of_elems [OF sh st i j k, of h] at3_of_elems [OF sh' st' i j k, of h']
  show ?thesis by simp
qed

lemma tvalue_frame:
  "allocated h t \<Longrightarrow> \<forall>a<next_addr h. cells h' a = cells h a \<Longrightarrow> tvalue h' t = tvalue h t"
  by (simp add: tvalue_def allocated_def)

lemma forward_returned_values:
  fixes call :: "('a::one, 'm, 'e, tensor) network"
  assumes call: "call h (model self) x = (Inr (p, q), h1, m1)"
    and shp: "shape p = [B, C, A]"
    and alp: "allocated h1 p" and alq: "allocated h1 q"
    and kb: "kb = min 4 C" and ke: "ke = clamp_index (nc self + 4) C"
    and lay: "layout p = Strided"
  shows "returned_values (forward call h self x) =
           Inr (([B, A, kb + 1 + (ke - kb) + (C - ke)], dtype p, device p, Strided,
                 concat (map (\<lambda>i. concat (map (\<lambda>j.
                    map (\<lambda>k. at3 h1 p i k j) [0..<kb] @ [1] @
                    map (\<lambda>k. at3 h1 p i k j) [kb..<ke] @
                    map (\<lambda>k. at3 h1 p i k j) [ke..<C]) [0..<A])) [0..<B])),
                tvalue h1 q)"
proof (rule forward_trace [where call = call and h = h and self = self and x = x,
      OF call shp kb ke lay])
  fix preds boxes classes masks one_channel dets :: tensor and h2 h3 :: "'a heap"
  assume fw: "forward call h self x = (Inr (dets, q), h3, self\<lparr>model := m1\<rparr>)"
    and ld: "layout dets = Strided"
    and sd: "shape dets = [B, A, kb + 1 + (ke - kb) + (C - ke)]"
    and ty: "list_all (\<lambda>u. dtype u = dtype p \<and> device u = device p)
               [preds, boxes, one_channel, classes, masks, dets]"
    and fr: "\<forall>a<next_addr h1. cells h2 a = cells h1 a \<and> cells h3 a = cells h1 a"
    and rows: "allocated h1 p \<longrightarrow> (\<forall>i<B. \<forall>j<A.
       row h3 dets i j =
         map (\<lambda>k. at3 h1 p i k j) [0..<kb] @ [1] @
         map (\<lambda>k. at3 h1 p i k j) [kb..<ke] @
         map (\<lambda>k. at3 h1 p i k j) [ke..<C])"
    and sr: "offset dets = 0 \<and> length (strides dets) = 3"
  let ?R = "\<lambda>i j. map (\<lambda>k. at3 h1 p i k j) [0..<kb] @ [1] @
         map (\<lambda>k. at3 h1 p i k j) [kb..<ke] @ map (\<lambda>k. at3 h1 p i k j) [ke..<C]"
  from sr have st: "length (strides dets) = 3" by simp
  have "elems (cells h3 (storage dets)) (offset dets) (shape dets) (strides dets)
      = concat (map (\<lambda>i. concat (map (\<lambda>j. row h3 dets i j) [0..<A])) [0..<B])"
    by (rule elems_rank3 [OF sd st])
  also have "\<dots> = concat (map (\<lambda>i. concat (map (\<lambda>j. ?R i j) [0..<A])) [0..<B])"
    using rows alp by (intro arg_cong [where f = concat] map_cong refl) simp
  finally have el: "elems (cells h3 (storage dets)) (offset dets) (shape dets) (strides dets)
      = concat (map (\<lambda>i. concat (map (\<lambda>j. ?R i j) [0..<A])) [0..<B])" .
  from ty have td: "dtype dets = dtype p" "device dets = device p" by simp_all
  have vd: "tvalue h3 dets = ([B, A, kb + 1 + (ke - kb) + (C - ke)], dtype p, device p, Strided,
      concat (map (\<lambda>i. concat (map (\<lambda>j. ?R i j) [0..<A])) [0..<B]))"
    unfolding tvalue_def el by (simp add: sd td ld)
  from fr have "\<forall>a<next_addr h1. cells h3 a = cells h1 a" by simp
  from tvalue_frame [OF alq this] have vq: "tvalue h3 q = tvalue h1 q" .
  show ?thesis
    by (simp add: returned_values_def fw vd vq)
qed

lemma detections_rows_cong:
  assumes eq: "\<And>i j k. i < B \<Longrightarrow> k < C \<Longrightarrow> j < A \<Longrightarrow> f i k j = g i k j"
    and kb: "kb \<le> C" and ke: "ke \<le> C"
  shows "concat (map (\<lambda>i. concat (map (\<lambda>j.
            map (\<lambda>k. f i k j) [0..<kb] @ [c] @ map (\<lambda>k. f i k j) [kb..<ke] @ map (\<lambda>k. f i k j) [ke..<C])
            [0..<A])) [0..<B])
       = concat (map (\<lambda>i. concat (map (\<lambda>j.
            map (\<lambda>k. g i k j) [0..<kb] @ [c] @ map (\<lambda>k. g i k j) [kb..<ke] @ map (\<lambda>k. g i k j) [ke..<C])
            [0..<A])) [0..<B])"
proof -
  have "map (\<lambda>k. f i k j) [0..<kb] @ [c] @ map (\<lambda>k. f i k j) [kb..<ke] @ map (\<lambda>k. f i k j) [ke..<C]
      = map (\<lambda>k. g i k j) [0..<kb] @ [c] @ map (\<lambda>k. g i k j) [kb..<ke] @ map (\<lambda>k. g i k j) [ke..<C]"
    if i: "i < B" and j: "j < A" for i j
    using eq [OF i _ j] kb ke by simp
  then show ?thesis
    by (intro arg_cong [where f = concat] map_cong refl) simp
qed

lemma returned_values_Inl:
  "returned_values (r, h', s) = Inl e \<longleftrightarrow> r = Inl e"
  by (cases r) (auto simp: returned_values_def)

lemma returned_values_Inr:
  "returned_values (Inr (p, q), h', s) = Inr (tvalue h' p, tvalue h' q)"
  by (simp add: returned_values_def)

lemma forward_values_determined:
  fixes call :: "('a::one, 'm, 'e, tensor) network"
  assumes c1: "call h (model self) x = (rc, h1, m1)"
    and c2: "call h' (model self) x' = (rc', h1', m1')"
    and same: "returned_values (call h' (model self) x') = returned_values (call h (model self) x)"
    and ok1: "case rc of Inl _ \<Rightarrow> True
              | Inr (p, q) \<Rightarrow> allocated h1 p \<and> allocated h1 q \<and> length (strides p) = length (shape p)"
    and ok2: "case rc' of Inl _ \<Rightarrow> True
              | Inr (p, q) \<Rightarrow> allocated h1' p \<and> allocated h1' q \<and> length (strides p) = length (shape p)"
  shows "returned_values (forward call h' self x') = returned_values (forward call h self x)"
proof (cases rc)
  case (Inl e)
  have "returned_values (Inl e, h1, m1) = (Inl e :: 'e + _)" by (simp add: returned_values_def)
  with same c1 c2 Inl have "rc' = Inl e" by (simp add: returned_values_Inl)
  with Inl c1 c2 show ?thesis
    by (simp add: forward_model_raised [where call = call] returned_values_def)
next
  case (Inr pq)
  obtain p q where pq: "pq = (p, q)" by (cases pq) auto
  from same c1 c2 Inr pq obtain p' q' where rc': "rc' = Inr (p', q')"
    and vp: "tvalue h1' p' = tvalue h1 p" and vq: "tvalue h1' q' = tvalue h1 q"
    by (cases rc') (auto simp: returned_values_def)
  from c1 Inr pq have k1: "call h (model self) x = (Inr (p, q), h1, m1)" by simp
  from c2 rc' have k2: "call h' (model self) x' = (Inr (p', q'), h1', m1')" by simp
  from ok1 Inr pq have a1: "allocated h1 p" "allocated h1 q" "length (strides p) = length (shape p)"
    by simp_all
  from ok2 rc' have a2: "allocated h1' p'" "allocated h1' q'" "length (strides p') = length (shape p')"
    by simp_all
  from vp have sh: "shape p' = shape p" and ty: "dtype p' = dtype p" "device p' = device p"
    and ly: "layout p' = layout p"
    by (simp_all add: tvalue_def)
  show ?thesis
  proof (cases "length (shape p) = 3")
    case False
    with sh have "length (shape p') \<noteq> 3" by simp
    from forward_bad_rank [where call = call and h = h' and self = self and x = x', OF k2 this]
      forward_bad_rank [where call = call and h = h and self = self and x = x, OF k1 False]
    show ?thesis by (simp add: returned_values_def)
  next
    case True
    from rank3_shape [OF True] obtain B C A where shp: "shape p = [B, C, A]" by blast
    with sh have shp': "shape p' = [B, C, A]" by simp
    from a1 a2 True sh have st: "length (strides p) = 3" "length (strides p') = 3" by simp_all
    show ?thesis
    proof (cases "layout p = Strided")
    case sparse: False
    with ly have "layout p' \<noteq> Strided" by simp
    have "length (shape p') = 3" using shp' by simp
    from forward_sparse [where call = call and h = h' and self = self and x = x',
        OF k2 this \<open>layout p' \<noteq> Strided\<close>]
    have "forward call h' self x' = (Inl SlicingSparse, h1', self\<lparr>model := m1'\<rparr>)"
      by blast
    moreover from forward_sparse [where call = call and h = h and self = self and x = x,
        OF k1 True sparse]
    have "forward call h self x = (Inl SlicingSparse, h1, self\<lparr>model := m1\<rparr>)" by blast
    ultimately show ?thesis by (simp add: returned_values_def)
    next
    case lay: True
    with ly have lay': "layout p' = Strided" by simp
    have at: "at3 h1' p' i k j = at3 h1 p i k j" if "i < B" "k < C" "j < A" for i j k
      using at3_of_tvalue [OF vp shp' st(2) st(1) that] .
    have "returned_values (forward call h' self x') =
        Inr (([B, A, min 4 C + 1 + (clamp_index (nc self + 4) C - min 4 C) + (C - clamp_index (nc self + 4) C)],
              dtype p', device p', Strided,
              concat (map (\<lambda>i. concat (map (\<lambda>j.
                 map (\<lambda>k. at3 h1' p' i k j) [0..<min 4 C] @ [1] @
                 map (\<lambda>k. at3 h1' p' i k j) [min 4 C..<clamp_index (nc self + 4) C] @
                 map (\<lambda>k. at3 h1' p' i k j) [clamp_index (nc self + 4) C..<C]) [0..<A])) [0..<B])),
             tvalue h1' q')"
      by (rule forward_returned_values [where call = call and h = h' and self = self and x = x',
            OF k2 shp' a2(1,2) refl refl lay'])
    also have "\<dots> =
        Inr (([B, A, min 4 C + 1 + (clamp_index (nc self + 4) C - min 4 C) + (C - clamp_index (nc self + 4) C)],
              dtype p, device p, Strided,
              concat (map (\<lambda>i. concat (map (\<lambda>j.
                 map (\<lambda>k. at3 h1 p i k j) [0..<min 4 C] @ [1] @
                 map (\<lambda>k. at3 h1 p i k j) [min 4 C..<clamp_index (nc self + 4) C] @
                 map (\<lambda>k. at3 h1 p i k j) [clamp_index (nc self + 4) C..<C]) [0..<A])) [0..<B])),
             tvalue h1 q)"
      using detections_rows_cong [of B C A "at3 h1' p'" "at3 h1 p" "min 4 C" "clamp_index (nc self + 4) C" 1]
        at clamp_index_le [of "nc self + 4" C]
      by (simp add: ty vq)
    also have "\<dots> = returned_values (forward call h self x)"
      by (rule forward_returned_values [where call = call and h = h and self = self and x = x,
            OF k1 shp a1(1,2) refl refl lay, symmetric])
    finally show ?thesis .
    qed
  qed
qed

lemma pure_inferenceD:
  assumes "pure_inference call" and "call h m x = (rc, h1, m1)"
  shows "m1 = m" and "next_addr h \<le> next_addr h1" and "\<forall>a<next_addr h. cells h1 a = cells h a"
    and "case rc of Inl _ \<Rightarrow> True
         | Inr (p, q) \<Rightarrow> allocated h1 p \<and> allocated h1 q \<and> length (strides p) = length (shape p)"
    and "tvalue h' x' = tvalue h x \<Longrightarrow> returned_values (call h' m x') = returned_values (call h m x)"
proof -
  note a = assms(1) [unfolded pure_inference_def]
  from a [rule_format, where h = h and m = m and x = x] assms(2) have *: "m1 = m \<and> next_addr h \<le> next_addr h1 \<and> (\<forall>a<next_addr h. cells h1 a = cells h a) \<and>
        (case rc of
           Inl _ \<Rightarrow> True
         | Inr (p, q) \<Rightarrow> allocated h1 p \<and> allocated h1 q \<and> length (strides p) = length (shape p)) \<and>
        (\<forall>h' x'. tvalue h' x' = tvalue h x \<longrightarrow>
           returned_values (call h' m x') = returned_values (call h m x))"
    by simp
  from * show "m1 = m" by blast
  from * show "next_addr h \<le> next_addr h1" by blast
  from * show "\<forall>a<next_addr h. cells h1 a = cells h a" by blast
  from * show "case rc of Inl _ \<Rightarrow> True
         | Inr (p, q) \<Rightarrow> allocated h1 p \<and> allocated h1 q \<and> length (strides p) = length (shape p)"
    by blast
  from * show "tvalue h' x' = tvalue h x \<Longrightarrow> returned_values (call h' m x') = returned_values (call h m x)"
    by blast
qed

lemma length_contiguous_strides: "length (contiguous_strides shp) = length shp"
  by (induction shp) simp_all

lemma fixed_network_pure: "pure_inference (fixed_network shp buf shq bufq)"
  unfolding pure_inference_def
  by (simp add: fixed_network_def returned_values_def tvalue_def alloc_def allocated_def
      length_contiguous_strides)

section \<open>The example network\<close>

lemma demo_call:
  "demo_network demo_heap (model \<lparr>nc = n, model = ()\<rparr>) demo_input
     = (Inr (demo_preds, demo_protos), demo_heap1, ())"
  by (simp add: demo_network_def fixed_network_def demo_preds_def demo_protos_def demo_heap1_def
      demo_heap_def alloc_def empty_heap_def)

lemma demo_call_any:
  "demo_network demo_heap m demo_input = (Inr (demo_preds, demo_protos), demo_heap1, m)"
  by (simp add: demo_network_def fixed_network_def demo_preds_def demo_protos_def demo_heap1_def
      demo_heap_def alloc_def empty_heap_def)

lemma demo_allocated: "allocated demo_heap1 demo_preds"
  by (simp add: allocated_def demo_heap1_def demo_preds_def demo_heap_def alloc_def empty_heap_def)

lemma demo_layout: "layout demo_preds = Strided"
  by (simp add: demo_preds_def)

lemma demo_at3:
  "at3 demo_heap1 demo_preds 0 k j =
     [10, 11, 20, 21, 30, 31, 40, 41, 50, 51, 60, 61, 70, 71] ! (k * 2 + j)"
  by (simp add: at3_def demo_heap1_def demo_preds_def demo_heap_def alloc_def empty_heap_def)

lemma demo_protos_value:
  "tvalue demo_heap1 demo_protos = ([1, 1, 2, 2], Float32, CPU, Strided, [1, 2, 3, 4])"
  by (simp add: tvalue_def demo_protos_def demo_heap1_def demo_heap_def alloc_def empty_heap_def
      eval_nat_numeral)

section \<open>The layout of the detections\<close>

text \<open>
  C2. When the network returns strided predictions with \<open>4 + nc + nm\<close> channels, every row of
  the detections forward returns is, in this order: the four box coordinates, the constant
  one, the \<open>nc\<close> class scores and the \<open>nm\<close> mask coefficients, each read from the
  network's prediction tensor at the same image and anchor.
\<close>

theorem forward_channel_order:
  fixes call :: "('a::one, 'm, 'e, 'p) network"
  assumes call: "call h (model self) x = (Inr (preds0, protos), h1, m1)"
    and shp: "shape preds0 = [B, 4 + n + m, A]"
    and nc: "nc self = int n"
    and al: "allocated h1 preds0"
    and lay: "layout preds0 = Strided"
  shows "\<exists>dets h3 self'. forward call h self x = (Inr (dets, protos), h3, self') \<and>
           shape dets = [B, A, 4 + 1 + n + m] \<and>
           (\<forall>i<B. \<forall>j<A. row h3 dets i j =
              map (\<lambda>k. at3 h1 preds0 i k j) [0..<4] @ [1] @
              map (\<lambda>k. at3 h1 preds0 i k j) [4..<4 + n] @
              map (\<lambda>k. at3 h1 preds0 i k j) [4 + n..<4 + n + m])"
proof -
  have kb: "4 = min 4 (4 + n + m)" by simp
  have ke: "4 + n = clamp_index (nc self + 4) (4 + n + m)"
    by (simp add: clamp_index_def nc)
  show ?thesis
  proof (rule forward_trace [where call = call and h = h and self = self and x = x, OF call shp kb ke lay])
    fix dets :: tensor and h3 :: "'a heap"
    assume fw: "forward call h self x = (Inr (dets, protos), h3, self\<lparr>model := m1\<rparr>)"
      and sd: "shape dets = [B, A, 4 + 1 + (4 + n - 4) + (4 + n + m - (4 + n))]"
      and rows: "allocated h1 preds0 \<longrightarrow> (\<forall>i<B. \<forall>j<A.
         row h3 dets i j =
           map (\<lambda>k. at3 h1 preds0 i k j) [0..<4] @ [1] @
           map (\<lambda>k. at3 h1 preds0 i k j) [4..<4 + n] @
           map (\<lambda>k. at3 h1 preds0 i k j) [4 + n..<4 + n + m])"
    from sd have "shape dets = [B, A, 4 + 1 + n + m]" by simp
    with fw rows al show ?thesis by blast
  qed
qed

theorem forward_channel_order_witness:
  "returned_shape (forward demo_network demo_heap \<lparr>nc = 2, model = ()\<rparr> demo_input) = Some [1, 2, 8] \<and>
   returned_row (forward demo_network demo_heap \<lparr>nc = 2, model = ()\<rparr> demo_input) 0 0
     = Some [10, 20, 30, 40, 1, 50, 60, 70] \<and>
   returned_row (forward demo_network demo_heap \<lparr>nc = 2, model = ()\<rparr> demo_input) 0 1
     = Some [11, 21, 31, 41, 1, 51, 61, 71]"
proof -
  have shp: "shape demo_preds = [1, 4 + 2 + 1, 2]" by (simp add: demo_preds_def)
  from forward_channel_order [where call = demo_network and h = demo_heap and x = demo_input,
      OF demo_call shp _ demo_allocated demo_layout]
  obtain dets h3 self' where
    fw: "forward demo_network demo_heap \<lparr>nc = 2, model = ()\<rparr> demo_input
           = (Inr (dets, demo_protos), h3, self')"
    and sd: "shape dets = [1, 2, 4 + 1 + 2 + 1]"
    and rows: "\<forall>i<1. \<forall>j<2. row h3 dets i j =
              map (\<lambda>k. at3 demo_heap1 demo_preds i k j) [0..<4] @ [1] @
              map (\<lambda>k. at3 demo_heap1 demo_preds i k j) [4..<4 + 2] @
              map (\<lambda>k. at3 demo_heap1 demo_preds i k j) [4 + 2..<4 + 2 + 1]"
    by auto
  from rows have "row h3 dets 0 0 = [10, 20, 30, 40, 1, 50, 60, 70]"
    "row h3 dets 0 1 = [11, 21, 31, 41, 1, 51, 61, 71]"
    by (simp_all add: demo_at3 eval_nat_numeral)
  with fw sd show ?thesis
    by (simp add: returned_shape_def returned_row_def)
qed





text \<open>
  C3, as amended. For a wrapper with \<open>nc \<ge> 0\<close> and strided predictions: deleting the constant channel from every
  row of the detections gives the row of the network's predictions permuted to (batch,
  anchors, channels), and the detections have one channel more than the predictions and
  their element type and device; the constant channel stands at index \<open>min 4 C\<close>, which
  is 4 when the predictions have at least four channels. Also, the rows of the boxes,
  classes and masks slices one after the other are the row of the permuted predictions.
\<close>

theorem forward_delete_constant_roundtrip:
  fixes call :: "('a::one, 'm, 'e, 'p) network"
  assumes call: "call h (model self) x = (Inr (preds0, protos), h1, m1)"
    and shp: "shape preds0 = [B, C, A]"
    and nonneg: "0 \<le> nc self"
    and al: "allocated h1 preds0"
    and lay: "layout preds0 = Strided"
  shows "\<exists>preds boxes classes masks dets h3.
           permute preds0 [0, 2, 1] = (Inr preds :: 'e error + tensor) \<and>
           getitem_dim2 preds None (Some 4) = (Inr boxes :: 'e error + tensor) \<and>
           getitem_dim2 preds (Some 4) (Some (nc self + 4)) = (Inr classes :: 'e error + tensor) \<and>
           getitem_dim2 preds (Some (nc self + 4)) None = (Inr masks :: 'e error + tensor) \<and>
           forward call h self x = (Inr (dets, protos), h3, self\<lparr>model := m1\<rparr>) \<and>
           shape preds = [B, A, C] \<and> shape dets = [B, A, Suc C] \<and>
           dtype dets = dtype preds \<and> device dets = device preds \<and>
           (\<forall>i<B. \<forall>j<A.
              delete_channel (min 4 C) (row h3 dets i j) = row h1 preds i j \<and>
              row h1 boxes i j @ row h1 classes i j @ row h1 masks i j = row h1 preds i j \<and>
              map_option (delete_channel (min 4 C)) (returned_row (forward call h self x) i j)
                = predicted_row call h (model self) x i j)"
proof -
  define kb where "kb = min 4 C"
  define ke where "ke = clamp_index (nc self + 4) C"
  have kbe: "kb \<le> ke" and keC: "ke \<le> C"
    using nonneg by (simp_all add: kb_def ke_def clamp_index_nonneg)
  show ?thesis
    unfolding kb_def [symmetric]
  proof (rule forward_trace [where call = call and h = h and self = self and x = x, OF call shp kb_def ke_def lay])
    fix preds boxes classes masks one_channel dets :: tensor and h2 h3 :: "'a heap"
    assume perm: "permute preds0 [0, 2, 1] = (Inr preds :: 'e error + tensor)"
      and gb: "getitem_dim2 preds None (Some 4) = (Inr boxes :: 'e error + tensor)"
      and gc: "getitem_dim2 preds (Some 4) (Some (nc self + 4)) = (Inr classes :: 'e error + tensor)"
      and gm: "getitem_dim2 preds (Some (nc self + 4)) None = (Inr masks :: 'e error + tensor)"
      and fw: "forward call h self x = (Inr (dets, protos), h3, self\<lparr>model := m1\<rparr>)"
      and sp: "shape preds = [B, A, C]"
      and sd: "shape dets = [B, A, kb + 1 + (ke - kb) + (C - ke)]"
      and ty: "list_all (\<lambda>u. dtype u = dtype preds0 \<and> device u = device preds0)
                 [preds, boxes, one_channel, classes, masks, dets]"
      and r1: "\<forall>i j. row h1 preds i j = map (\<lambda>k. at3 h1 preds0 i k j) [0..<C] \<and>
           row h1 boxes i j = map (\<lambda>k. at3 h1 preds0 i k j) [0..<kb] \<and>
           row h1 classes i j = map (\<lambda>k. at3 h1 preds0 i k j) [kb..<ke] \<and>
           row h1 masks i j = map (\<lambda>k. at3 h1 preds0 i k j) [ke..<C]"
      and rows: "allocated h1 preds0 \<longrightarrow> (\<forall>i<B. \<forall>j<A.
         row h3 dets i j =
           map (\<lambda>k. at3 h1 preds0 i k j) [0..<kb] @ [1] @
           map (\<lambda>k. at3 h1 preds0 i k j) [kb..<ke] @
           map (\<lambda>k. at3 h1 preds0 i k j) [ke..<C])"
    have sd': "shape dets = [B, A, Suc C]"
      using sd kbe keC by simp
    have pr: "predicted_row call h (model self) x i j = Some (row h1 preds i j)" for i j
    proof -
      from shp have "permute preds0 [0, 2, 1] = (Inr preds :: unit error + tensor)"
        using perm by (simp add: permute_def)
      then show ?thesis by (simp add: predicted_row_def call)
    qed
    have main: "delete_channel kb (row h3 dets i j) = row h1 preds i j \<and>
        row h1 boxes i j @ row h1 classes i j @ row h1 masks i j = row h1 preds i j \<and>
        map_option (delete_channel kb) (returned_row (forward call h self x) i j)
          = predicted_row call h (model self) x i j"
      if i: "i < B" and j: "j < A" for i j
    proof -
      let ?f = "\<lambda>k. at3 h1 preds0 i k j"
      have whole: "map ?f [0..<kb] @ map ?f [kb..<ke] @ map ?f [ke..<C] = map ?f [0..<C]"
        using upt_split3 [OF kbe keC] by (metis map_append)
      from rows al i j have rd: "row h3 dets i j = map ?f [0..<kb] @ [1] @ map ?f [kb..<ke] @ map ?f [ke..<C]"
        by blast
      have "delete_channel kb (row h3 dets i j) = map ?f [0..<kb] @ map ?f [kb..<ke] @ map ?f [ke..<C]"
        unfolding rd delete_channel_def by simp
      with whole r1 have del: "delete_channel kb (row h3 dets i j) = row h1 preds i j" by simp
      moreover from whole r1 have "row h1 boxes i j @ row h1 classes i j @ row h1 masks i j = row h1 preds i j"
        by simp
      moreover have "map_option (delete_channel kb) (returned_row (forward call h self x) i j)
          = predicted_row call h (model self) x i j"
        by (simp add: fw returned_row_def pr del)
      ultimately show ?thesis by blast
    qed
    from ty have "dtype dets = dtype preds" "device dets = device preds" by simp_all
    with perm gb gc gm fw sp sd' main show "\<exists>preds boxes classes masks dets h3.
           permute preds0 [0, 2, 1] = (Inr preds :: 'e error + tensor) \<and>
           getitem_dim2 preds None (Some 4) = (Inr boxes :: 'e error + tensor) \<and>
           getitem_dim2 preds (Some 4) (Some (nc self + 4)) = (Inr classes :: 'e error + tensor) \<and>
           getitem_dim2 preds (Some (nc self + 4)) None = (Inr masks :: 'e error + tensor) \<and>
           forward call h self x = (Inr (dets, protos), h3, self\<lparr>model := m1\<rparr>) \<and>
           shape preds = [B, A, C] \<and> shape dets = [B, A, Suc C] \<and>
           dtype dets = dtype preds \<and> device dets = device preds \<and>
           (\<forall>i<B. \<forall>j<A.
              delete_channel kb (row h3 dets i j) = row h1 preds i j \<and>
              row h1 boxes i j @ row h1 classes i j @ row h1 masks i j = row h1 preds i j \<and>
              map_option (delete_channel kb) (returned_row (forward call h self x) i j)
                = predicted_row call h (model self) x i j)"
      by blast
  qed
qed

theorem forward_delete_constant_roundtrip_witness:
  "map_option (delete_channel 4)
     (returned_row (forward demo_network demo_heap \<lparr>nc = 2, model = ()\<rparr> demo_input) 0 1)
     = Some [11, 21, 31, 41, 51, 61, 71] \<and>
   predicted_row demo_network demo_heap () demo_input 0 1 = Some [11, 21, 31, 41, 51, 61, 71]"
proof -
  have shp: "shape demo_preds = [1, 7, 2]" by (simp add: demo_preds_def)
  from forward_delete_constant_roundtrip [where call = demo_network and h = demo_heap and x = demo_input,
      OF demo_call [of 2] shp _ demo_allocated demo_layout]
  have "map_option (delete_channel (min 4 7))
          (returned_row (forward demo_network demo_heap \<lparr>nc = 2, model = ()\<rparr> demo_input) 0 1)
        = predicted_row demo_network demo_heap (model \<lparr>nc = 2, model = ()\<rparr>) demo_input 0 1"
    by auto
  moreover have "predicted_row demo_network demo_heap () demo_input 0 1 = Some [11, 21, 31, 41, 51, 61, 71]"
    by code_simp
  ultimately show ?thesis by simp
qed

theorem forward_delete_constant_counterexample:
  "map_option (delete_channel 4)
     (returned_row (forward tiny_network demo_heap \<lparr>nc = 80, model = ()\<rparr> demo_input) 0 0)
     \<noteq> predicted_row tiny_network demo_heap () demo_input 0 0 \<and>
   map_option (delete_channel 4)
     (returned_row (forward demo_network demo_heap \<lparr>nc = - 2, model = ()\<rparr> demo_input) 0 0)
     \<noteq> predicted_row demo_network demo_heap () demo_input 0 0 \<and>
   map_option (delete_channel 4)
     (returned_row (forward tiny_network demo_heap \<lparr>nc = 80, model = ()\<rparr> demo_input) 0 0)
     = Some [10, 20, 30, 1] \<and>
   predicted_row tiny_network demo_heap () demo_input 0 0 = Some [10, 20, 30] \<and>
   map_option (delete_channel 4)
     (returned_row (forward demo_network demo_heap \<lparr>nc = - 2, model = ()\<rparr> demo_input) 0 0)
     = Some [10, 20, 30, 40, 30, 40, 50, 60, 70] \<and>
   predicted_row demo_network demo_heap () demo_input 0 0 = Some [10, 20, 30, 40, 50, 60, 70]"
  by code_simp

text \<open>
  C4. When forward returns, as it does on strided predictions of rank three, the second component of the pair is the very prototype tensor
  the network returned, and its sizes, element type, device and elements in the store
  forward leaves are those it had in the store the network left.
\<close>

theorem forward_protos_passthrough:
  fixes call :: "('a::one, 'm, 'e, tensor) network"
  assumes call: "call h (model self) x = (Inr (preds0, protos), h1, m1)"
    and rank: "length (shape preds0) = 3"
    and al: "allocated h1 protos"
    and lay: "layout preds0 = Strided"
  shows "\<exists>dets h3 self'. forward call h self x = (Inr (dets, protos), h3, self') \<and>
           tvalue h3 protos = tvalue h1 protos"
proof -
  from rank3_shape [OF rank] obtain B C A where shp: "shape preds0 = [B, C, A]"
    by blast
  show ?thesis
  proof (rule forward_trace [where call = call and h = h and self = self and x = x, OF call shp refl refl lay])
    fix dets :: tensor and h2 h3 :: "'a heap"
    assume fw: "forward call h self x = (Inr (dets, protos), h3, self\<lparr>model := m1\<rparr>)"
      and fr: "\<forall>a<next_addr h1. cells h2 a = cells h1 a \<and> cells h3 a = cells h1 a"
    from fr al have "cells h3 (storage protos) = cells h1 (storage protos)"
      by (simp add: allocated_def)
    then have "tvalue h3 protos = tvalue h1 protos" by (simp add: tvalue_def)
    with fw show ?thesis by blast
  qed
qed

theorem forward_protos_passthrough_witness:
  "returned_protos (forward demo_network demo_heap \<lparr>nc = 2, model = ()\<rparr> demo_input) = Some demo_protos \<and>
   tvalue (fst (snd (forward demo_network demo_heap \<lparr>nc = 2, model = ()\<rparr> demo_input))) demo_protos
     = ([1, 1, 2, 2], Float32, CPU, Strided, [1, 2, 3, 4])"
proof -
  have rank: "length (shape demo_preds) = 3" by (simp add: demo_preds_def)
  have al: "allocated demo_heap1 demo_protos"
    by (simp add: allocated_def demo_heap1_def demo_protos_def demo_heap_def alloc_def empty_heap_def)
  from forward_protos_passthrough [where call = demo_network and h = demo_heap and x = demo_input,
      OF demo_call [of 2] rank al demo_layout]
  obtain dets h3 self' where
    "forward demo_network demo_heap \<lparr>nc = 2, model = ()\<rparr> demo_input = (Inr (dets, demo_protos), h3, self')"
    "tvalue h3 demo_protos = tvalue demo_heap1 demo_protos"
    by blast
  then show ?thesis
    by (simp add: returned_protos_def demo_protos_value)
qed

text \<open>
  C7, as amended. When the call into the network returns a pair whose predictions are a
  strided tensor of rank three, permute, the three slicings, \<^verbatim>\<open>ones\<close> and \<^verbatim>\<open>cat\<close> all succeed
  and forward returns. On sparse predictions of rank three permute succeeds and the first
  slicing raises, an error of forward's own. So an error of forward is the exception the
  network raised, the failure of permute on predictions of another rank, or the failure of
  the slicing on sparse predictions of rank three.
\<close>

theorem forward_raises_nothing_of_its_own:
  fixes call :: "('a::one, 'm, 'e, 'p) network"
  shows "(\<forall>preds0 protos h1 m1.
            call h (model self) x = (Inr (preds0, protos), h1, m1) \<longrightarrow> length (shape preds0) = 3 \<longrightarrow>
            layout preds0 = Strided \<longrightarrow>
            (\<exists>preds boxes classes masks one_channel h2 dets h3.
               permute preds0 [0, 2, 1] = (Inr preds :: 'e error + tensor) \<and>
               getitem_dim2 preds None (Some 4) = (Inr boxes :: 'e error + tensor) \<and>
               getitem_dim2 preds (Some 4) (Some (nc self + 4)) = (Inr classes :: 'e error + tensor) \<and>
               getitem_dim2 preds (Some (nc self + 4)) None = (Inr masks :: 'e error + tensor) \<and>
               ones h1 [shape boxes ! 0, shape boxes ! 1, 1] (device boxes) (dtype boxes)
                 = (one_channel, h2) \<and>
               cat_dim2 h2 [boxes, one_channel, classes, masks] = (Inr dets :: 'e error + tensor, h3) \<and>
               forward call h self x = (Inr (dets, protos), h3, self\<lparr>model := m1\<rparr>))) \<and>
         (\<forall>preds0 protos h1 m1.
            call h (model self) x = (Inr (preds0, protos), h1, m1) \<longrightarrow> length (shape preds0) = 3 \<longrightarrow>
            layout preds0 \<noteq> Strided \<longrightarrow>
            (\<exists>preds.
               permute preds0 [0, 2, 1] = (Inr preds :: 'e error + tensor) \<and>
               getitem_dim2 preds None (Some 4) = (Inl SlicingSparse :: 'e error + tensor) \<and>
               forward call h self x = (Inl SlicingSparse, h1, self\<lparr>model := m1\<rparr>))) \<and>
         (\<forall>err. fst (forward call h self x) = Inl err \<longrightarrow>
            (\<exists>e. fst (call h (model self) x) = Inl e \<and> err = ModelRaised e) \<or>
            (\<exists>preds0 protos. fst (call h (model self) x) = Inr (preds0, protos) \<and>
               length (shape preds0) \<noteq> 3 \<and> err = PermuteDims) \<or>
            (\<exists>preds0 protos. fst (call h (model self) x) = Inr (preds0, protos) \<and>
               length (shape preds0) = 3 \<and> layout preds0 \<noteq> Strided \<and> err = SlicingSparse))"
proof (intro conjI allI impI)
  fix preds0 protos h1 m1
  assume call: "call h (model self) x = (Inr (preds0, protos), h1, m1)"
    and rank: "length (shape preds0) = 3"
    and lay: "layout preds0 \<noteq> Strided"
  show "\<exists>preds.
               permute preds0 [0, 2, 1] = (Inr preds :: 'e error + tensor) \<and>
               getitem_dim2 preds None (Some 4) = (Inl SlicingSparse :: 'e error + tensor) \<and>
               forward call h self x = (Inl SlicingSparse, h1, self\<lparr>model := m1\<rparr>)"
    by (rule forward_sparse [where call = call and h = h and self = self and x = x,
          OF call rank lay])
next
  fix preds0 protos h1 m1
  assume call: "call h (model self) x = (Inr (preds0, protos), h1, m1)"
    and rank: "length (shape preds0) = 3"
    and lay: "layout preds0 = Strided"
  from rank3_shape [OF rank] obtain B C A where shp: "shape preds0 = [B, C, A]"
    by blast
  show "\<exists>preds boxes classes masks one_channel h2 dets h3.
               permute preds0 [0, 2, 1] = (Inr preds :: 'e error + tensor) \<and>
               getitem_dim2 preds None (Some 4) = (Inr boxes :: 'e error + tensor) \<and>
               getitem_dim2 preds (Some 4) (Some (nc self + 4)) = (Inr classes :: 'e error + tensor) \<and>
               getitem_dim2 preds (Some (nc self + 4)) None = (Inr masks :: 'e error + tensor) \<and>
               ones h1 [shape boxes ! 0, shape boxes ! 1, 1] (device boxes) (dtype boxes)
                 = (one_channel, h2) \<and>
               cat_dim2 h2 [boxes, one_channel, classes, masks] = (Inr dets :: 'e error + tensor, h3) \<and>
               forward call h self x = (Inr (dets, protos), h3, self\<lparr>model := m1\<rparr>)"
  proof (rule forward_trace [where call = call and h = h and self = self and x = x, OF call shp refl refl lay])
    fix preds boxes classes masks one_channel dets :: tensor and h2 h3 :: "'a heap"
    assume "permute preds0 [0, 2, 1] = (Inr preds :: 'e error + tensor)"
      "getitem_dim2 preds None (Some 4) = (Inr boxes :: 'e error + tensor)"
      "getitem_dim2 preds (Some 4) (Some (nc self + 4)) = (Inr classes :: 'e error + tensor)"
      "getitem_dim2 preds (Some (nc self + 4)) None = (Inr masks :: 'e error + tensor)"
      "ones h1 [shape boxes ! 0, shape boxes ! 1, 1] (device boxes) (dtype boxes) = (one_channel, h2)"
      "cat_dim2 h2 [boxes, one_channel, classes, masks] = (Inr dets :: 'e error + tensor, h3)"
      "forward call h self x = (Inr (dets, protos), h3, self\<lparr>model := m1\<rparr>)"
    then show ?thesis by blast
  qed
next
  fix err
  assume err: "fst (forward call h self x) = Inl err"
  obtain rc h1 m1 where call: "call h (model self) x = (rc, h1, m1)"
    by (cases "call h (model self) x") auto
  show "(\<exists>e. fst (call h (model self) x) = Inl e \<and> err = ModelRaised e) \<or>
        (\<exists>preds0 protos. fst (call h (model self) x) = Inr (preds0, protos) \<and>
           length (shape preds0) \<noteq> 3 \<and> err = PermuteDims) \<or>
        (\<exists>preds0 protos. fst (call h (model self) x) = Inr (preds0, protos) \<and>
           length (shape preds0) = 3 \<and> layout preds0 \<noteq> Strided \<and> err = SlicingSparse)"
  proof (cases rc)
    case (Inl e)
    with call err forward_model_raised [of call h self x e h1 m1] show ?thesis by simp
  next
    case (Inr pq)
    obtain preds0 protos where pq: "pq = (preds0, protos)" by (cases pq) auto
    show ?thesis
    proof (cases "length (shape preds0) = 3")
      case True
      from rank3_shape [OF True] obtain B C A where shp: "shape preds0 = [B, C, A]"
        by blast
      from call Inr pq have c: "call h (model self) x = (Inr (preds0, protos), h1, m1)" by simp
      show ?thesis
      proof (cases "layout preds0 = Strided")
        case lay: True
        have False
        proof (rule forward_trace [where call = call and h = h and self = self and x = x,
              OF c shp refl refl lay])
          fix dets :: tensor and h3 :: "'a heap"
          assume "forward call h self x = (Inr (dets, protos), h3, self\<lparr>model := m1\<rparr>)"
          with err show False by simp
        qed
        then show ?thesis ..
      next
        case sparse: False
        from forward_sparse [where call = call and h = h and self = self and x = x,
            OF c True sparse]
        have "forward call h self x = (Inl SlicingSparse, h1, self\<lparr>model := m1\<rparr>)" by blast
        with err c True sparse show ?thesis by simp
      qed
    next
      case False
      from call Inr pq have c: "call h (model self) x = (Inr (preds0, protos), h1, m1)" by simp
      from forward_bad_rank [where call = call and h = h and self = self and x = x, OF c False] err c False
      show ?thesis by simp
    qed
  qed
qed

theorem forward_raises_nothing_of_its_own_witness:
  "\<not> isl (fst (forward demo_network demo_heap \<lparr>nc = 2, model = ()\<rparr> demo_input)) \<and>
   fst (forward (raising_network ''no device'' :: (int, unit, string, tensor) network)
          demo_heap \<lparr>nc = 2, model = ()\<rparr> demo_input) = Inl (ModelRaised ''no device'') \<and>
   fst (forward flat_network demo_heap \<lparr>nc = 2, model = ()\<rparr> demo_input) = Inl PermuteDims"
proof -
  have rank: "length (shape demo_preds) = 3" by (simp add: demo_preds_def)
  from forward_raises_nothing_of_its_own [where call = demo_network and h = demo_heap
      and self = "\<lparr>nc = 2, model = ()\<rparr>" and x = demo_input] demo_call [of 2] rank demo_layout
  obtain dets h3 where
    "forward demo_network demo_heap \<lparr>nc = 2, model = ()\<rparr> demo_input
       = (Inr (dets, demo_protos), h3, \<lparr>nc = 2, model = ()\<rparr>\<lparr>model := ()\<rparr>)"
    by blast
  then have "\<not> isl (fst (forward demo_network demo_heap \<lparr>nc = 2, model = ()\<rparr> demo_input))"
    by simp
  moreover have "fst (forward (raising_network ''no device'' :: (int, unit, string, tensor) network)
          demo_heap \<lparr>nc = 2, model = ()\<rparr> demo_input) = Inl (ModelRaised ''no device'')"
    by (simp add: forward_def raising_network_def)
  moreover have "fst (forward flat_network demo_heap \<lparr>nc = 2, model = ()\<rparr> demo_input) = Inl PermuteDims"
    by (simp add: forward_def flat_network_def fixed_network_def permute_def)
  ultimately show ?thesis by blast
qed

text \<open>
  The claim as it stands fails on sparse predictions: the call into the network succeeded
  and returned a pair whose first element has rank three, and forward raises in its own
  slicing, after permute succeeded.
\<close>

theorem forward_raises_nothing_of_its_own_counterexample:
  "map_sum id (\<lambda>(p, q). (shape p, layout p))
     (fst (demo_sparse_network demo_heap (model \<lparr>nc = 2, model = ()\<rparr>) demo_input))
     = Inr ([1, 7, 2], SparseCoo) \<and>
   map_sum id (\<lambda>(p, q). map_sum id shape (permute p [0, 2, 1] :: unit error + tensor))
     (fst (demo_sparse_network demo_heap (model \<lparr>nc = 2, model = ()\<rparr>) demo_input))
     = Inr (Inr [1, 2, 7]) \<and>
   fst (forward demo_sparse_network demo_heap \<lparr>nc = 2, model = ()\<rparr> demo_input)
     = Inl SlicingSparse"
  by code_simp

text \<open>
  C9, as amended. On strided predictions of rank three the constant channel is created with the element type, the device, the
  batch size and the anchor count of the boxes slice, the four operands of the
  concatenation agree on all four, and the concatenation succeeds. In the detections the
  constant channel is everywhere 1 and stands right after the box channels: at index
  \<open>min 4 C\<close>, which is index 4 when the predictions have at least four channels.
\<close>

theorem forward_constant_channel:
  fixes call :: "('a::one, 'm, 'e, 'p) network"
  assumes call: "call h (model self) x = (Inr (preds0, protos), h1, m1)"
    and shp: "shape preds0 = [B, C, A]"
    and lay: "layout preds0 = Strided"
  shows "\<exists>preds boxes classes masks one_channel h2 dets h3.
           permute preds0 [0, 2, 1] = (Inr preds :: 'e error + tensor) \<and>
           getitem_dim2 preds None (Some 4) = (Inr boxes :: 'e error + tensor) \<and>
           getitem_dim2 preds (Some 4) (Some (nc self + 4)) = (Inr classes :: 'e error + tensor) \<and>
           getitem_dim2 preds (Some (nc self + 4)) None = (Inr masks :: 'e error + tensor) \<and>
           ones h1 [shape boxes ! 0, shape boxes ! 1, 1] (device boxes) (dtype boxes)
             = (one_channel, h2) \<and>
           cat_dim2 h2 [boxes, one_channel, classes, masks] = (Inr dets :: 'e error + tensor, h3) \<and>
           forward call h self x = (Inr (dets, protos), h3, self\<lparr>model := m1\<rparr>) \<and>
           shape boxes = [B, A, min 4 C] \<and> shape one_channel = [B, A, 1] \<and>
           dtype one_channel = dtype boxes \<and> device one_channel = device boxes \<and>
           list_all (\<lambda>u. dtype u = dtype boxes \<and> device u = device boxes \<and>
                         shape u ! 0 = shape boxes ! 0 \<and> shape u ! 1 = shape boxes ! 1)
             [boxes, one_channel, classes, masks] \<and>
           (\<forall>i<B. \<forall>j<A.
              row h2 one_channel i j = [1] \<and>
              row h3 dets i j ! min 4 C = 1 \<and>
              (4 \<le> C \<longrightarrow> at3 h3 dets i j 4 = 1))"
proof (rule forward_trace [where call = call and h = h and self = self and x = x, OF call shp refl refl lay])
  fix preds boxes classes masks one_channel dets :: tensor and h2 h3 :: "'a heap"
  let ?kb = "min 4 C" and ?ke = "clamp_index (nc self + 4) C"
  assume perm: "permute preds0 [0, 2, 1] = (Inr preds :: 'e error + tensor)"
    and gb: "getitem_dim2 preds None (Some 4) = (Inr boxes :: 'e error + tensor)"
    and gc: "getitem_dim2 preds (Some 4) (Some (nc self + 4)) = (Inr classes :: 'e error + tensor)"
    and gm: "getitem_dim2 preds (Some (nc self + 4)) None = (Inr masks :: 'e error + tensor)"
    and on: "ones h1 [shape boxes ! 0, shape boxes ! 1, 1] (device boxes) (dtype boxes) = (one_channel, h2)"
    and cat: "cat_dim2 h2 [boxes, one_channel, classes, masks] = (Inr dets :: 'e error + tensor, h3)"
    and fw: "forward call h self x = (Inr (dets, protos), h3, self\<lparr>model := m1\<rparr>)"
    and sb: "shape boxes = [B, A, ?kb]" and so: "shape one_channel = [B, A, 1]"
    and sc: "shape classes = [B, A, ?ke - ?kb]" and sm: "shape masks = [B, A, C - ?ke]"
    and sd: "shape dets = [B, A, ?kb + 1 + (?ke - ?kb) + (C - ?ke)]"
    and ty: "list_all (\<lambda>u. dtype u = dtype preds0 \<and> device u = device preds0)
               [preds, boxes, one_channel, classes, masks, dets]"
    and ro: "\<forall>i<B. \<forall>j<A. row h2 one_channel i j = [1]"
    and rc: "\<forall>i<B. \<forall>j<A. row h3 dets i j =
       row h2 boxes i j @ row h2 one_channel i j @ row h2 classes i j @ row h2 masks i j"
  have same: "list_all (\<lambda>u. dtype u = dtype boxes \<and> device u = device boxes \<and>
                         shape u ! 0 = shape boxes ! 0 \<and> shape u ! 1 = shape boxes ! 1)
             [boxes, one_channel, classes, masks]"
    using ty by (simp add: sb so sc sm)
  have one: "dtype one_channel = dtype boxes" "device one_channel = device boxes"
    using ty by simp_all
  have chan: "row h2 one_channel i j = [1] \<and> row h3 dets i j ! ?kb = 1 \<and>
      (4 \<le> C \<longrightarrow> at3 h3 dets i j 4 = 1)" if i: "i < B" and j: "j < A" for i j
  proof -
    from ro i j have r1: "row h2 one_channel i j = [1]" by blast
    from rc i j have "row h3 dets i j =
        row h2 boxes i j @ row h2 one_channel i j @ row h2 classes i j @ row h2 masks i j"
      by blast
    then have at: "row h3 dets i j ! ?kb = 1"
      by (simp add: r1 nth_append sb)
    have "at3 h3 dets i j 4 = 1" if "4 \<le> C"
    proof -
      from that have kb: "?kb = 4" by simp
      have "4 < shape dets ! 2" by (simp add: sd kb)
      from row_nth [OF this, of h3 i j] at kb show ?thesis by simp
    qed
    with r1 at show ?thesis by blast
  qed
  from perm gb gc gm on cat fw sb so one same chan
  show ?thesis by blast
qed

theorem forward_constant_channel_witness:
  "map_option (\<lambda>r. r ! 4) (returned_row (forward demo_network demo_heap \<lparr>nc = 2, model = ()\<rparr> demo_input) 0 0)
     = Some 1 \<and>
   map_option (\<lambda>r. r ! 4) (returned_row (forward demo_network demo_heap \<lparr>nc = 2, model = ()\<rparr> demo_input) 0 1)
     = Some 1"
proof -
  have shp: "shape demo_preds = [1, 7, 2]" by (simp add: demo_preds_def)
  from forward_constant_channel [where call = demo_network and h = demo_heap and x = demo_input,
      OF demo_call [of 2] shp demo_layout]
  obtain dets h3 where
    fw: "forward demo_network demo_heap \<lparr>nc = 2, model = ()\<rparr> demo_input
           = (Inr (dets, demo_protos), h3, \<lparr>nc = 2, model = ()\<rparr>\<lparr>model := ()\<rparr>)"
    and "\<forall>i<1. \<forall>j<2. row h3 dets i j ! min 4 7 = 1"
    by blast
  then have "row h3 dets 0 0 ! 4 = 1" "row h3 dets 0 1 ! 4 = 1" by simp_all
  with fw show ?thesis by (simp add: returned_row_def)
qed

theorem forward_constant_channel_counterexample:
  "returned_shape (forward tiny_network demo_heap \<lparr>nc = 80, model = ()\<rparr> demo_input) = Some [1, 2, 4] \<and>
   returned_row (forward tiny_network demo_heap \<lparr>nc = 80, model = ()\<rparr> demo_input) 0 0
     = Some [10, 20, 30, 1] \<and>
   returned_row (forward tiny_network demo_heap \<lparr>nc = 80, model = ()\<rparr> demo_input) 0 1
     = Some [11, 21, 31, 1]"
  by code_simp

text \<open>
  C10. For strided predictions of rank three with fewer than \<open>nc + 4\<close> channels the three
  slicings still succeed: the boxes slice has \<open>min 4 C\<close> channels, the classes slice the
  \<open>C - 4\<close> channels that are left and the masks slice none, and forward returns
  detections of \<open>C + 1\<close> channels, fewer than the \<open>4 + 1 + nc\<close> of a full layout,
  without raising.
\<close>

theorem forward_slicing_total:
  fixes call :: "('a::one, 'm, 'e, 'p) network"
  assumes call: "call h (model self) x = (Inr (preds0, protos), h1, m1)"
    and shp: "shape preds0 = [B, C, A]"
    and short: "int C < nc self + 4"
    and lay: "layout preds0 = Strided"
  shows "\<exists>preds boxes classes masks dets h3.
           permute preds0 [0, 2, 1] = (Inr preds :: 'e error + tensor) \<and>
           getitem_dim2 preds None (Some 4) = (Inr boxes :: 'e error + tensor) \<and>
           getitem_dim2 preds (Some 4) (Some (nc self + 4)) = (Inr classes :: 'e error + tensor) \<and>
           getitem_dim2 preds (Some (nc self + 4)) None = (Inr masks :: 'e error + tensor) \<and>
           shape boxes = [B, A, min 4 C] \<and> shape classes = [B, A, C - 4] \<and>
           shape masks = [B, A, 0] \<and>
           forward call h self x = (Inr (dets, protos), h3, self\<lparr>model := m1\<rparr>) \<and>
           shape dets = [B, A, C + 1] \<and> int (C + 1) < 4 + 1 + nc self"
proof -
  have ke: "C = clamp_index (nc self + 4) C"
    using short by (simp add: clamp_index_def)
  show ?thesis
  proof (rule forward_trace [where call = call and h = h and self = self and x = x, OF call shp refl ke lay])
    fix preds boxes classes masks dets :: tensor and h3 :: "'a heap"
    assume perm: "permute preds0 [0, 2, 1] = (Inr preds :: 'e error + tensor)"
      and gb: "getitem_dim2 preds None (Some 4) = (Inr boxes :: 'e error + tensor)"
      and gc: "getitem_dim2 preds (Some 4) (Some (nc self + 4)) = (Inr classes :: 'e error + tensor)"
      and gm: "getitem_dim2 preds (Some (nc self + 4)) None = (Inr masks :: 'e error + tensor)"
      and fw: "forward call h self x = (Inr (dets, protos), h3, self\<lparr>model := m1\<rparr>)"
      and sb: "shape boxes = [B, A, min 4 C]"
      and sc: "shape classes = [B, A, C - min 4 C]" and sm: "shape masks = [B, A, C - C]"
      and sd: "shape dets = [B, A, min 4 C + 1 + (C - min 4 C) + (C - C)]"
    have "shape classes = [B, A, C - 4]" using sc by simp
    moreover have "shape masks = [B, A, 0]" using sm by simp
    moreover have "shape dets = [B, A, C + 1]" using sd by simp
    moreover have "int (C + 1) < 4 + 1 + nc self" using short by simp
    ultimately show ?thesis using perm gb gc gm fw sb by blast
  qed
qed

theorem forward_slicing_total_witness:
  "returned_shape (forward demo_network demo_heap \<lparr>nc = 80, model = ()\<rparr> demo_input) = Some [1, 2, 8] \<and>
   returned_shape (forward tiny_network demo_heap \<lparr>nc = 80, model = ()\<rparr> demo_input) = Some [1, 2, 4]"
proof -
  have shp: "shape demo_preds = [1, 7, 2]" by (simp add: demo_preds_def)
  have "int 7 < nc \<lparr>nc = 80, model = ()\<rparr> + 4" by simp
  from forward_slicing_total [where call = demo_network and h = demo_heap and x = demo_input,
      OF demo_call [of 80] shp this demo_layout]
  have "returned_shape (forward demo_network demo_heap \<lparr>nc = 80, model = ()\<rparr> demo_input) = Some [1, 2, 8]"
    by (auto simp: returned_shape_def)
  moreover have "returned_shape (forward tiny_network demo_heap \<lparr>nc = 80, model = ()\<rparr> demo_input)
      = Some [1, 2, 4]"
    by code_simp
  ultimately show ?thesis by simp
qed

section \<open>The constructor\<close>

lemma parameters_map:
  "parameters (map (\<lambda>l. l\<lparr>params := map f (params l)\<rparr>) m) = map f (parameters m)"
  by (induction m) (simp_all add: parameters_def)

lemma parameters_same:
  "(\<And>l. params (g l) = params l) \<Longrightarrow> parameters (map g m) = parameters m"
  by (induction m) (simp_all add: parameters_def)

lemma params_export: "params (set_export_attributes l) = params l"
  by (simp add: set_export_attributes_def)

lemma training_export: "training (set_export_attributes l) = training l"
  by (simp add: set_export_attributes_def)

lemma parameters_export: "parameters (map set_export_attributes m) = parameters m"
  by (simp add: parameters_same params_export)

lemma map_training_export: "map training (map set_export_attributes m) = map training m"
  by (simp add: training_export)

lemma eval_mode_training: "eval_mode m = list_all (\<lambda>t. \<not> t) (map training m)"
  by (simp add: eval_mode_def list_all_iff)

lemma prepared_init:
  "prepared loaded (float (eval (freeze (to_device global_device loaded))))"
  by (simp add: prepared_def prepared_module_def prepared_parameter_def float_def eval_def
      freeze_def to_device_def list_all2_map2 list.rel_refl comp_def)

lemma prepared_frozen: "prepared loaded m \<Longrightarrow> frozen m"
  by (auto simp: prepared_def prepared_module_def prepared_parameter_def frozen_def parameters_def
      list_all_iff list_all2_conv_all_nth in_set_conv_nth)

lemma prepared_eval_mode: "prepared loaded m \<Longrightarrow> eval_mode m"
  by (auto simp: prepared_def prepared_module_def eval_mode_def
      list_all_iff list_all2_conv_all_nth in_set_conv_nth)

lemma prepared_parameter_float:
  "prepared_parameter p0 p \<Longrightarrow> is_floating_point (param_dtype p) \<Longrightarrow> param_dtype p = Float32"
  by (auto simp: prepared_parameter_def is_floating_point_def split: if_splits)

lemma prepared_float_precision:
  assumes "prepared loaded m"
  shows "float_precision m"
proof -
  have "is_floating_point (param_dtype p) \<longrightarrow> param_dtype p = Float32"
    if "p \<in> set (parameters m)" for p
  proof -
    from that obtain l where l: "l \<in> set m" and p: "p \<in> set (params l)"
      by (auto simp: parameters_def)
    from l assms obtain l0 where "prepared_module l0 l"
      by (auto simp: prepared_def list_all2_conv_all_nth in_set_conv_nth)
    then have "list_all2 prepared_parameter (params l0) (params l)"
      by (simp add: prepared_module_def)
    with p obtain p0 where "prepared_parameter p0 p"
      by (auto simp: list_all2_conv_all_nth in_set_conv_nth)
    then show ?thesis using prepared_parameter_float by blast
  qed
  then show ?thesis by (simp add: float_precision_def list_all_iff)
qed

lemma run_forward_keeps:
  fixes call :: "('a::one, 'w net, 'e, 'p) network"
  assumes call_keeps: "\<forall>h m x. parameters (snd (snd (call h m x))) = parameters m \<and>
                         map training (snd (snd (call h m x))) = map training m"
  shows "nc (snd (run_forward call h w xs)) = nc w \<and>
         parameters (model (snd (run_forward call h w xs))) = parameters (model w) \<and>
         map training (model (snd (run_forward call h w xs))) = map training (model w)"
proof (induction xs arbitrary: h w)
  case Nil
  show ?case by simp
next
  case (Cons x xs)
  obtain rc h1 m1 where c: "call h (model w) x = (rc, h1, m1)"
    by (cases "call h (model w) x") auto
  from call_keeps have "parameters (snd (snd (call h (model w) x))) = parameters (model w) \<and>
      map training (snd (snd (call h (model w) x))) = map training (model w)"
    by blast
  with c have k: "parameters m1 = parameters (model w)" "map training m1 = map training (model w)"
    by simp_all
  show ?case
  proof (rule forward_effects [where call = call and h = h and self = w and x = x, OF c])
    fix r and h' :: "'a heap"
    assume f: "forward call h w x = (r, h', w\<lparr>model := m1\<rparr>)"
    from Cons.IH [of h' "w\<lparr>model := m1\<rparr>"] f k show ?thesis by simp
  qed
qed

lemma parameters_demo_fuse: "set (parameters (demo_fuse m)) \<subseteq> set (parameters m)"
  by (auto simp: parameters_def demo_fuse_def)

lemma demo_fuse_keeps:
  "\<forall>m. frozen m \<and> eval_mode m \<and> float_precision m \<longrightarrow>
     frozen (demo_fuse m) \<and> eval_mode (demo_fuse m) \<and> float_precision (demo_fuse m)"
proof (intro allI impI conjI)
  fix m :: "'a net"
  assume a: "frozen m \<and> eval_mode m \<and> float_precision m"
  show "frozen (demo_fuse m)"
    using a parameters_demo_fuse [of m] by (fastforce simp: frozen_def list_all_iff)
  show "eval_mode (demo_fuse m)"
    using a by (simp add: eval_mode_def demo_fuse_def list_all_iff)
  show "float_precision (demo_fuse m)"
    using a parameters_demo_fuse [of m] by (fastforce simp: float_precision_def list_all_iff)
qed

section \<open>State and effects\<close>

text \<open>
  C6. When \<^verbatim>\<open>__init__\<close> completes, the wrapped network is what the library's \<^verbatim>\<open>fuse\<close>
  returned for the loaded network as \<^verbatim>\<open>__init__\<close> prepared it (the same modules and
  weights, every parameter on the device with \<^verbatim>\<open>requires_grad\<close> cleared, every module in eval
  mode, the floating point parameters float32), with the export attributes set. Every
  parameter of the wrapped network has \<^verbatim>\<open>requires_grad\<close> false, every module is in eval mode
  and every floating point parameter is float32; and after every sequence of forward calls
  the parameters and the training flags are the ones \<^verbatim>\<open>__init__\<close> left. The library's part
  is a hypothesis: \<^verbatim>\<open>fuse\<close> keeps frozen parameters, eval mode and float precision, and a call
  of the network leaves its parameters and training flags as they were.
\<close>

theorem init_freezes_and_forward_preserves:
  fixes call :: "('a::one, 'w net, 'e, 'p) network"
  assumes init: "init load fuse weights n = Inr self"
    and fuse_keeps: "\<forall>m. frozen m \<and> eval_mode m \<and> float_precision m \<longrightarrow>
                       frozen (fuse m) \<and> eval_mode (fuse m) \<and> float_precision (fuse m)"
    and call_keeps: "\<forall>h m x. parameters (snd (snd (call h m x))) = parameters m \<and>
                       map training (snd (snd (call h m x))) = map training m"
  shows "\<exists>loaded m0.
           load weights = Inr loaded \<and> prepared loaded m0 \<and>
           frozen m0 \<and> eval_mode m0 \<and> float_precision m0 \<and>
           nc self = n \<and> model self = map set_export_attributes (fuse m0) \<and>
           parameters (model self) = parameters (fuse m0) \<and>
           map training (model self) = map training (fuse m0) \<and>
           frozen (model self) \<and> eval_mode (model self) \<and> float_precision (model self) \<and>
           (\<forall>h xs. nc (snd (run_forward call h self xs)) = n \<and>
              parameters (model (snd (run_forward call h self xs))) = parameters (model self) \<and>
              map training (model (snd (run_forward call h self xs))) = map training (model self) \<and>
              frozen (model (snd (run_forward call h self xs))) \<and>
              eval_mode (model (snd (run_forward call h self xs))) \<and>
              float_precision (model (snd (run_forward call h self xs))))"
proof -
  from init obtain loaded where ld: "load weights = Inr loaded"
    by (auto simp: init_def split: sum.splits)
  define m0 where "m0 = float (eval (freeze (to_device global_device loaded)))"
  from init ld have self: "self = \<lparr>nc = n, model = map set_export_attributes (fuse m0)\<rparr>"
    by (simp add: init_def m0_def Let_def)
  have pr: "prepared loaded m0" unfolding m0_def by (rule prepared_init)
  then have r0: "frozen m0" "eval_mode m0" "float_precision m0"
    by (rule prepared_frozen, rule prepared_eval_mode, rule prepared_float_precision)
  with fuse_keeps have rf: "frozen (fuse m0)" "eval_mode (fuse m0)" "float_precision (fuse m0)"
    by blast+
  have pm: "parameters (model self) = parameters (fuse m0)"
    and tm: "map training (model self) = map training (fuse m0)"
    by (simp_all add: self parameters_export training_export)
  from rf pm tm have rs: "frozen (model self)" "eval_mode (model self)" "float_precision (model self)"
    by (simp_all add: frozen_def float_precision_def eval_mode_training)
  have after: "nc (snd (run_forward call h self xs)) = n \<and>
      parameters (model (snd (run_forward call h self xs))) = parameters (model self) \<and>
      map training (model (snd (run_forward call h self xs))) = map training (model self) \<and>
      frozen (model (snd (run_forward call h self xs))) \<and>
      eval_mode (model (snd (run_forward call h self xs))) \<and>
      float_precision (model (snd (run_forward call h self xs)))" for h xs
    using run_forward_keeps [OF call_keeps, of h self xs] rs
    by (simp add: frozen_def float_precision_def eval_mode_training self)
  from ld pr r0 pm tm rs after self show ?thesis by auto
qed

theorem init_freezes_and_forward_preserves_witness:
  "(case init demo_load demo_fuse ''yolov8l-seg.pt'' 80 of
      Inl _ \<Rightarrow> False
    | Inr w \<Rightarrow>
        nc w = 80 \<and> map kind (model w) = [Conv, C2f, Detect] \<and>
        map requires_grad (parameters (model w)) = [False, False] \<and>
        frozen (model w) \<and> eval_mode (model w) \<and> float_precision (model w) \<and>
        frozen (model (snd (run_forward demo_network demo_heap w [demo_input, demo_input]))) \<and>
        eval_mode (model (snd (run_forward demo_network demo_heap w [demo_input, demo_input]))))"
proof -
  let ?net = "demo_network :: (int, unit net, unit, tensor) network"
  obtain w where w: "init demo_load demo_fuse ''yolov8l-seg.pt'' 80 = Inr w"
    by (simp add: init_def demo_load_def Let_def)
  have keeps: "\<forall>h m x. parameters (snd (snd (?net h m x))) = parameters m \<and>
      map training (snd (snd (?net h m x))) = map training m"
    by (simp add: demo_network_def fixed_network_def)
  from init_freezes_and_forward_preserves [where call = ?net, OF w demo_fuse_keeps keeps]
  have "nc w = 80 \<and> frozen (model w) \<and> eval_mode (model w) \<and> float_precision (model w) \<and>
      frozen (model (snd (run_forward ?net demo_heap w [demo_input, demo_input]))) \<and>
      eval_mode (model (snd (run_forward ?net demo_heap w [demo_input, demo_input])))"
    by blast
  moreover from w have "map kind (model w) = [Conv, C2f, Detect] \<and>
      map requires_grad (parameters (model w)) = [False, False]"
    by (auto simp: init_def demo_load_def Let_def demo_modules_def demo_fuse_def
        set_export_attributes_def float_def eval_def freeze_def to_device_def parameters_def)
  ultimately show ?thesis using w by simp
qed

text \<open>
  C5. forward has no effect of its own. After a call the wrapper's \<^verbatim>\<open>nc\<close> is what it
  was and its \<^verbatim>\<open>model\<close> is the network as the network's own call left it, and the
  store differs from the one the network's call left only by the storage forward
  allocated for its result. So where the network's call leaves the input tensor and the
  network's parameters unchanged, the forward call leaves them unchanged.
\<close>

theorem forward_has_no_effect_of_its_own:
  fixes call :: "('a::one, 'w net, 'e, 'p) network"
  assumes call: "call h (model self) x = (rc, h1, m1)"
    and input_kept: "tvalue h1 x = tvalue h x"
    and input_there: "allocated h1 x"
    and params_kept: "parameters m1 = parameters (model self)"
  shows "\<exists>r h' self'. forward call h self x = (r, h', self') \<and>
           nc self' = nc self \<and> model self' = m1 \<and>
           parameters (model self') = parameters (model self) \<and>
           tvalue h' x = tvalue h x \<and>
           next_addr h1 \<le> next_addr h' \<and> (\<forall>a<next_addr h1. cells h' a = cells h1 a)"
proof (rule forward_effects [where call = call and h = h and self = self and x = x, OF call])
  fix r and h' :: "'a heap"
  assume fw: "forward call h self x = (r, h', self\<lparr>model := m1\<rparr>)"
    and nx: "next_addr h1 \<le> next_addr h'"
    and fr: "\<forall>a<next_addr h1. cells h' a = cells h1 a"
  from fr input_there have "cells h' (storage x) = cells h1 (storage x)"
    by (simp add: allocated_def)
  then have "tvalue h' x = tvalue h1 x" by (simp add: tvalue_def)
  with input_kept have "tvalue h' x = tvalue h x" by simp
  with fw nx fr params_kept show ?thesis by simp
qed

theorem forward_has_no_effect_of_its_own_witness:
  "snd (snd (forward demo_network demo_heap \<lparr>nc = 2, model = demo_modules\<rparr> demo_input))
     = \<lparr>nc = 2, model = demo_modules\<rparr> \<and>
   tvalue (fst (snd (forward demo_network demo_heap \<lparr>nc = 2, model = demo_modules\<rparr> demo_input))) demo_input
     = tvalue demo_heap demo_input"
proof -
  have kept: "tvalue demo_heap1 demo_input = tvalue demo_heap demo_input"
    by (simp add: tvalue_def demo_heap1_def demo_input_def demo_heap_def alloc_def empty_heap_def)
  have there: "allocated demo_heap1 demo_input"
    by (simp add: allocated_def demo_heap1_def demo_input_def demo_heap_def alloc_def empty_heap_def)
  from forward_has_no_effect_of_its_own [where call = demo_network and h = demo_heap
      and self = "\<lparr>nc = 2, model = demo_modules\<rparr>" and x = demo_input, OF demo_call_any kept there]
  obtain r h' self' where
    "forward demo_network demo_heap \<lparr>nc = 2, model = demo_modules\<rparr> demo_input = (r, h', self')"
    "nc self' = 2" "model self' = demo_modules" "tvalue h' demo_input = tvalue demo_heap demo_input"
    by auto
  then show ?thesis by simp
qed

text \<open>
  C8. For a network whose calls are inference calls in the sense of \<open>pure_inference\<close>:
  the values forward returns depend only on the value of the input (for the wrapper at
  hand, that is its \<^verbatim>\<open>nc\<close> and its network); a call leaves the wrapper and the input as
  they were; and a second call on the same input returns the same values as the first.
\<close>

theorem forward_stateless_deterministic:
  fixes call :: "('a::one, 'm, 'e, tensor) network"
  assumes pure: "pure_inference call" and xin: "allocated h x"
  shows "(\<forall>h' x'. tvalue h' x' = tvalue h x \<longrightarrow>
            returned_values (forward call h' self x') = returned_values (forward call h self x)) \<and>
         (case forward call h self x of
            (r1, h1, self1) \<Rightarrow>
              self1 = self \<and> tvalue h1 x = tvalue h x \<and>
              returned_values (forward call h1 self1 x) = returned_values (forward call h self x))"
proof -
  have det: "returned_values (forward call h' self x') = returned_values (forward call h self x)"
    if v: "tvalue h' x' = tvalue h x" for h' x'
  proof -
    obtain rc h1 m1 where c1: "call h (model self) x = (rc, h1, m1)"
      by (cases "call h (model self) x") auto
    obtain rc' h1' m1' where c2: "call h' (model self) x' = (rc', h1', m1')"
      by (cases "call h' (model self) x'") auto
    show ?thesis
      by (rule forward_values_determined [where call = call and h = h and x = x and h' = h' and x' = x',
            OF c1 c2 pure_inferenceD(5) [OF pure c1 v] pure_inferenceD(4) [OF pure c1]
               pure_inferenceD(4) [OF pure c2]])
  qed
  obtain rc h1 m1 where c1: "call h (model self) x = (rc, h1, m1)"
    by (cases "call h (model self) x") auto
  have again: "self1 = self \<and> tvalue hf x = tvalue h x \<and>
      returned_values (forward call hf self1 x) = returned_values (forward call h self x)"
    if fw: "forward call h self x = (r1, hf, self1)" for r1 hf self1
  proof (rule forward_effects [where call = call and h = h and self = self and x = x, OF c1])
    fix r and h' :: "'a heap"
    assume f: "forward call h self x = (r, h', self\<lparr>model := m1\<rparr>)"
      and fr: "\<forall>a<next_addr h1. cells h' a = cells h1 a"
    from pure_inferenceD(1) [OF pure c1] have m1: "m1 = model self" .
    from f fw m1 have s1: "self1 = self" and hf: "hf = h'" by simp_all
    have "\<forall>a<next_addr h. cells h' a = cells h a"
      using fr pure_inferenceD(2,3) [OF pure c1] by auto
    from tvalue_frame [OF xin this] have v: "tvalue hf x = tvalue h x" by (simp add: hf)
    from det [OF v] s1 v show ?thesis by simp
  qed
  from det again show ?thesis
    by (cases "forward call h self x") auto
qed

theorem forward_stateless_deterministic_witness:
  "returned_values
     (forward demo_network
        (fst (snd (forward demo_network demo_heap \<lparr>nc = 2, model = ()\<rparr> demo_input)))
        (snd (snd (forward demo_network demo_heap \<lparr>nc = 2, model = ()\<rparr> demo_input)))
        demo_input)
     = returned_values (forward demo_network demo_heap \<lparr>nc = 2, model = ()\<rparr> demo_input) \<and>
   snd (snd (forward demo_network demo_heap \<lparr>nc = 2, model = ()\<rparr> demo_input)) = \<lparr>nc = 2, model = ()\<rparr> \<and>
   returned_values (forward demo_network demo_heap \<lparr>nc = 2, model = ()\<rparr> demo_input)
     = Inr (([1, 2, 8], Float32, CPU, Strided, [10, 20, 30, 40, 1, 50, 60, 70, 11, 21, 31, 41, 1, 51, 61, 71]),
            ([1, 1, 2, 2], Float32, CPU, Strided, [1, 2, 3, 4]))"
proof -
  have pure: "pure_inference (demo_network :: (int, unit, unit, tensor) network)"
    unfolding demo_network_def by (rule fixed_network_pure)
  have xin: "allocated demo_heap demo_input"
    by (simp add: allocated_def demo_heap_def demo_input_def alloc_def empty_heap_def)
  obtain r1 h1 self1 where fw: "forward demo_network demo_heap \<lparr>nc = 2, model = ()\<rparr> demo_input = (r1, h1, self1)"
    by (cases "forward demo_network demo_heap \<lparr>nc = 2, model = ()\<rparr> demo_input") auto
  from forward_stateless_deterministic [OF pure xin, of "\<lparr>nc = 2, model = ()\<rparr>"] fw
  have "self1 = \<lparr>nc = 2, model = ()\<rparr>"
    and "returned_values (forward demo_network h1 self1 demo_input) = returned_values (r1, h1, self1)"
    by simp_all
  moreover have "returned_values (forward demo_network demo_heap \<lparr>nc = 2, model = ()\<rparr> demo_input)
     = Inr (([1, 2, 8], Float32, CPU, Strided, [10, 20, 30, 40, 1, 50, 60, 70, 11, 21, 31, 41, 1, 51, 61, 71]),
            ([1, 1, 2, 2], Float32, CPU, Strided, [1, 2, 3, 4]))"
    by code_simp
  ultimately show ?thesis by (simp add: fw)
qed

end
